theory Spec2Isabelle
  imports Main
begin

section \<open>Values exchanged with the server\<close>

text \<open>
  The client of \<^verbatim>\<open>clients/websocket_client.py\<close> builds its outgoing messages as Python
  dictionaries and reads incoming ones with \<^verbatim>\<open>json.loads\<close>. Both are values of the
  JSON data model. Numbers are kept as integers; a dictionary is the list of its items.
\<close>

datatype json =
    JNull
  | JBool bool
  | JNum int
  | JStr string
  | JArr "json list"
  | JObj "(string \<times> json) list"

text \<open>The outcome of \<^verbatim>\<open>json.loads(message)\<close>: the decoded value, or the decode error.\<close>

datatype loads_result = JSONDecodeError | Loaded json

text \<open>Python's truth value of a decoded JSON value.\<close>

fun truthy :: "json \<Rightarrow> bool" where
  "truthy JNull = False"
| "truthy (JBool b) = b"
| "truthy (JNum n) = (n \<noteq> 0)"
| "truthy (JStr s) = (s \<noteq> [])"
| "truthy (JArr xs) = (xs \<noteq> [])"
| "truthy (JObj kvs) = (kvs \<noteq> [])"

text \<open>\<^verbatim>\<open>isinstance(data, dict)\<close>.\<close>

fun is_dict :: "json \<Rightarrow> bool" where
  "is_dict (JObj kvs) = True"
| "is_dict v = False"

text \<open>\<^verbatim>\<open>data.get(key)\<close> and \<^verbatim>\<open>key in data\<close> on a decoded dictionary: \<open>None\<close> is a missing key.\<close>

fun dict_get :: "string \<Rightarrow> json \<Rightarrow> json option" where
  "dict_get k (JObj kvs) = map_of kvs k"
| "dict_get k v = None"

text \<open>Lists and dictionaries cannot be used as dictionary keys: the lookup raises TypeError.\<close>

fun hashable :: "json \<Rightarrow> bool" where
  "hashable (JArr xs) = False"
| "hashable (JObj kvs) = False"
| "hashable v = True"

section \<open>Python dictionaries in insertion order\<close>

text \<open>
  \<^verbatim>\<open>subscribed_channels\<close> and \<^verbatim>\<open>handlers\<close> are Python dictionaries, which iterate in
  insertion order: a new key goes to the end, an assignment to an existing key keeps its
  place, \<^verbatim>\<open>del\<close> removes the item.
\<close>

definition dict_in :: "'k \<Rightarrow> ('k \<times> 'v) list \<Rightarrow> bool" where
  "dict_in k d = (map_of d k \<noteq> None)"

definition dict_lookup :: "'k \<Rightarrow> ('k \<times> 'v) list \<Rightarrow> 'v option" where
  "dict_lookup k d = map_of d k"

fun dict_set :: "'k \<Rightarrow> 'v \<Rightarrow> ('k \<times> 'v) list \<Rightarrow> ('k \<times> 'v) list" where
  "dict_set k v [] = [(k, v)]"
| "dict_set k v ((k', v') # d) = (if k' = k then (k, v) # d else (k', v') # dict_set k v d)"

fun dict_del :: "'k \<Rightarrow> ('k \<times> 'v) list \<Rightarrow> ('k \<times> 'v) list" where
  "dict_del k [] = []"
| "dict_del k ((k', v') # d) = (if k' = k then dict_del k d else (k', v') # dict_del k d)"

text \<open>The list stored under a key, empty when the key is missing.\<close>

definition dict_list :: "'k \<Rightarrow> ('k \<times> 'v list) list \<Rightarrow> 'v list" where
  "dict_list k d = (case map_of d k of None \<Rightarrow> [] | Some vs \<Rightarrow> vs)"

section \<open>The client object and its environment\<close>

text \<open>
  A handler is a callback; the client compares handlers only for equality, so a handler is
  the number that identifies it. What a handler does when it is called is decided by the
  environment: the calls it makes on the client while it runs (\<^verbatim>\<open>subscribe\<close> and
  \<^verbatim>\<open>unsubscribe\<close>, the two methods that change what the dispatch loop reads), and how it
  ends. It returns, or it raises an exception derived from \<^verbatim>\<open>Exception\<close>, or it raises
  one that is not (\<^verbatim>\<open>SystemExit\<close>, \<^verbatim>\<open>KeyboardInterrupt\<close>).
\<close>

type_synonym handler = nat

datatype client_call =
    CallSubscribe string "string list" handler
  | CallUnsubscribe string "string list" "handler option"

datatype outcome = Returns | RaisesException | RaisesBaseException

datatype level = DEBUG | INFO | WARNING | ERROR

text \<open>
  The fields of \<^verbatim>\<open>CoinglassWebSocketClient\<close>, followed by what the client does to the
  outside world, recorded in order: the log records, the messages handed to
  \<^verbatim>\<open>ws.send\<close>, the number of \<^verbatim>\<open>ws.close()\<close> calls, the number of \<^verbatim>\<open>WebSocketApp\<close>
  objects created (each one with its thread started), the number of ping threads started,
  the durations slept, the handler calls with their argument, the number of threads
  suspended in the sleep of \<^verbatim>\<open>_attempt_reconnect\<close> and the number of exceptions that
  have left \<^verbatim>\<open>_on_message\<close> uncaught.

  \<^verbatim>\<open>ws\<close> holds the creation index of the current \<^verbatim>\<open>WebSocketApp\<close>, \<^verbatim>\<open>ws_thread\<close> is
  \<open>None\<close> or \<open>Some alive\<close> with the value of \<^verbatim>\<open>is_alive()\<close>. \<^verbatim>\<open>is_authenticated\<close> is only
  ever read through its truth value, which is what the field holds here. The attempt
  counter is only ever set to 0 or incremented, so it is a natural number.
\<close>

record client =
  api_key :: string
  debug :: bool
  ws :: "nat option"
  is_connected :: bool
  is_authenticated :: bool
  subscribed_channels :: "(string \<times> string list) list"
  handlers :: "(string \<times> handler list) list"
  reconnect_interval :: int
  max_reconnect_attempts :: int
  reconnect_attempts :: nat
  running :: bool
  ping_thread :: "nat option"
  ws_thread :: "bool option"
  logs :: "(level \<times> string) list"
  sends :: "json list"
  closes :: nat
  opens :: nat
  pings_started :: nat
  sleeps :: "int list"
  calls :: "(handler \<times> json) list"
  sleepers :: nat
  uncaught :: nat

text \<open>
  What the client cannot decide: whether the n-th call of \<^verbatim>\<open>ws.send\<close> or of
  \<^verbatim>\<open>ws.close\<close> raises an exception (calls counted from 0), whether the WebSocket thread
  is still alive when \<^verbatim>\<open>join(timeout=5)\<close> returns, what the handler calls do, and the
  truth value of a handler object, which \<^verbatim>\<open>if handler:\<close> reads. \<^verbatim>\<open>handler_script\<close> lists
  what the successive handler calls do, counted over the life of the client, the first
  call first: the calls made on the client and the way the handler ends. A handler call
  beyond the script returns at once.
\<close>

record env =
  send_raises :: "nat \<Rightarrow> bool"
  close_raises :: "nat \<Rightarrow> bool"
  join_times_out :: bool
  handler_script :: "(client_call list \<times> outcome) list"
  handler_truth :: "handler \<Rightarrow> bool"

definition behaviour :: "env \<Rightarrow> nat \<Rightarrow> client_call list \<times> outcome" where
  "behaviour E n = (if n < length (handler_script E) then handler_script E ! n else ([], Returns))"

definition logger :: "level \<Rightarrow> string \<Rightarrow> client \<Rightarrow> client" where
  "logger lv m s = s\<lparr>logs := logs s @ [(lv, m)]\<rparr>"

definition sleep :: "int \<Rightarrow> client \<Rightarrow> client" where
  "sleep t s = s\<lparr>sleeps := sleeps s @ [t]\<rparr>"

definition PING_INTERVAL :: int where
  "PING_INTERVAL = 20"

text \<open>\<^verbatim>\<open>__init__\<close>.\<close>

definition init :: "string \<Rightarrow> bool \<Rightarrow> client" where
  "init key dbg =
     \<lparr>api_key = key, debug = dbg, ws = None, is_connected = False,
      is_authenticated = False, subscribed_channels = [], handlers = [],
      reconnect_interval = 5, max_reconnect_attempts = 5, reconnect_attempts = 0,
      running = False, ping_thread = None, ws_thread = None,
      logs = [], sends = [], closes = 0, opens = 0, pings_started = 0, sleeps = [],
      calls = [], sleepers = 0, uncaught = 0\<rparr>"

section \<open>Sending\<close>

text \<open>
  \<^verbatim>\<open>_send_message\<close>: with a socket and the connected flag set, the message is handed to
  \<^verbatim>\<open>ws.send\<close>; an exception of the call is caught and logged there. Otherwise a warning.
  The function returns normally in every case.
\<close>

definition send_message :: "env \<Rightarrow> json \<Rightarrow> client \<Rightarrow> client" where
  "send_message E message s =
     (if ws s \<noteq> None \<and> is_connected s then
        (let s1 = s\<lparr>sends := sends s @ [message]\<rparr> in
         if send_raises E (length (sends s)) then logger ERROR ''Error sending message'' s1
         else logger DEBUG ''Sent message'' s1)
      else logger WARNING ''WebSocket is not connected. Cannot send message.'' s)"

definition ping_message :: json where
  "ping_message = JObj [(''op'', JStr ''ping'')]"

definition auth_message :: "string \<Rightarrow> json" where
  "auth_message key = JObj [(''op'', JStr ''auth''), (''args'', JArr [JObj [(''apiKey'', JStr key)]])]"

text \<open>The argument strings \<^verbatim>\<open>f"{channel}:{param}"\<close> and the two control messages built on them.\<close>

definition channel_args :: "string \<Rightarrow> string list \<Rightarrow> json list" where
  "channel_args channel params = map (\<lambda>param. JStr (channel @ '':'' @ param)) params"

definition sub_message :: "string \<Rightarrow> string list \<Rightarrow> json" where
  "sub_message channel params =
     JObj [(''op'', JStr ''subscribe''), (''args'', JArr (channel_args channel params))]"

definition unsub_message :: "string \<Rightarrow> string list \<Rightarrow> json" where
  "unsub_message channel params =
     JObj [(''op'', JStr ''unsubscribe''), (''args'', JArr (channel_args channel params))]"

section \<open>The heartbeat loop\<close>

text \<open>
  The body of the \<^verbatim>\<open>try\<close> in \<^verbatim>\<open>_send_ping\<close>: send the ping, log, sleep. Its result is
  \<open>Inl\<close> when the body raises; none of its three calls does.
\<close>

definition send_ping_body :: "env \<Rightarrow> client \<Rightarrow> string + client" where
  "send_ping_body E s =
     Inr (sleep PING_INTERVAL (logger DEBUG ''Sent ping'' (send_message E ping_message s)))"

text \<open>
  \<^verbatim>\<open>_send_ping\<close>, run for at most the given number of iterations. The first component
  says whether the loop has returned: by its condition, or by the \<^verbatim>\<open>break\<close> of the
  exception handler.
\<close>

fun send_ping :: "env \<Rightarrow> nat \<Rightarrow> client \<Rightarrow> bool \<times> client" where
  "send_ping E 0 s = (\<not> (running s \<and> is_connected s), s)"
| "send_ping E (Suc n) s =
     (if running s \<and> is_connected s then
        (case send_ping_body E s of
           Inl e \<Rightarrow> (True, logger ERROR ''Error in ping thread'' s)
         | Inr s' \<Rightarrow> send_ping E n s')
      else (True, s))"

section \<open>Replay of the subscriptions\<close>

text \<open>The loop of \<^verbatim>\<open>_resubscribe_channels\<close> over the items of the registry.\<close>

fun resubscribe_items :: "env \<Rightarrow> (string \<times> string list) list \<Rightarrow> client \<Rightarrow> client" where
  "resubscribe_items E [] s = s"
| "resubscribe_items E ((channel, params_list) # items) s =
     resubscribe_items E items
       (if params_list \<noteq> [] then
          logger INFO ''Resubscribed to channel''
            (send_message E (sub_message channel params_list) s)
        else logger WARNING ''No parameters found for channel during resubscribe.'' s)"

definition resubscribe_channels :: "env \<Rightarrow> client \<Rightarrow> client" where
  "resubscribe_channels E s =
     (if \<not> is_connected s \<or> \<not> is_authenticated s then
        logger WARNING ''Cannot resubscribe: Not connected or authenticated.'' s
      else resubscribe_items E (subscribed_channels s)
             (logger INFO ''Resubscribing to channels...'' s))"

section \<open>Subscribing and unsubscribing\<close>

text \<open>
  The loop of \<^verbatim>\<open>subscribe\<close> over \<^verbatim>\<open>params\<close>: the registered list of the channel and the
  list of new parameters, both extended by each parameter that is not registered yet.
\<close>

fun add_params :: "string list \<Rightarrow> string list \<Rightarrow> string list \<Rightarrow> string list \<times> string list" where
  "add_params [] registered new_params = (registered, new_params)"
| "add_params (p # params) registered new_params =
     (if p \<notin> set registered then add_params params (registered @ [p]) (new_params @ [p])
      else add_params params registered new_params)"

text \<open>
  \<^verbatim>\<open>subscribe\<close> is written here block by block. First the handler is registered: the
  channel gets an empty handler list when it has none, and the handler is appended when
  it is not in the list.
\<close>

definition add_handler :: "string \<Rightarrow> handler \<Rightarrow> client \<Rightarrow> client" where
  "add_handler channel handler s =
     (let s1 = (if \<not> dict_in channel (handlers s) then
                  s\<lparr>handlers := dict_set channel [] (handlers s)\<rparr>
                else s)
      in if handler \<notin> set (dict_list channel (handlers s1)) then
           logger INFO ''Handler added for channel''
             (s1\<lparr>handlers := dict_set channel
                    (dict_list channel (handlers s1) @ [handler]) (handlers s1)\<rparr>)
         else s1)"

text \<open>
  Then the parameters are registered: the channel gets an empty parameter list when it
  has none, and the loop appends the parameters that are new. The result is the client
  and \<^verbatim>\<open>new_params_to_subscribe\<close>.
\<close>

definition add_new_params :: "string \<Rightarrow> string list \<Rightarrow> client \<Rightarrow> client \<times> string list" where
  "add_new_params channel params s =
     (let s1 = (if \<not> dict_in channel (subscribed_channels s) then
                  s\<lparr>subscribed_channels := dict_set channel [] (subscribed_channels s)\<rparr>
                else s);
          (registered, new_params_to_subscribe) =
             add_params params (dict_list channel (subscribed_channels s1)) []
      in (s1\<lparr>subscribed_channels := dict_set channel registered (subscribed_channels s1)\<rparr>,
          new_params_to_subscribe))"

text \<open>The whole of \<^verbatim>\<open>subscribe\<close>: the guard, the two blocks, and the message for the new parameters.\<close>

definition subscribe :: "env \<Rightarrow> string \<Rightarrow> string list \<Rightarrow> handler \<Rightarrow> client \<Rightarrow> client" where
  "subscribe E channel params handler s =
     (if channel = [] \<or> params = [] then
        logger ERROR ''Channel and params cannot be empty for subscription.'' s
      else
        (case add_new_params channel params (add_handler channel handler s) of
           (s4, new_params_to_subscribe) \<Rightarrow>
             if new_params_to_subscribe \<noteq> [] then
               (if is_connected s4 \<and> is_authenticated s4 then
                  logger INFO ''Subscribed to channel with new params''
                    (send_message E (sub_message channel new_params_to_subscribe) s4)
                else logger WARNING ''WebSocket not ready. Subscription will be attempted upon connection/authentication.'' s4)
             else logger INFO ''Already subscribed to channel with params'' s4))"

text \<open>
  The loop of \<^verbatim>\<open>unsubscribe\<close> over \<^verbatim>\<open>params\<close>: the parameters to unsubscribe and the
  remaining ones; \<^verbatim>\<open>remaining_params.remove(p)\<close> removes the first occurrence.
\<close>

fun take_params :: "string list \<Rightarrow> string list \<Rightarrow> string list \<Rightarrow> string list \<times> string list" where
  "take_params [] params_to_unsubscribe remaining = (params_to_unsubscribe, remaining)"
| "take_params (p # params) params_to_unsubscribe remaining =
     (if p \<in> set remaining then
        take_params params (params_to_unsubscribe @ [p]) (remove1 p remaining)
      else take_params params params_to_unsubscribe remaining)"

text \<open>
  The blocks of \<^verbatim>\<open>unsubscribe\<close> that follow the loop. The registry is updated: the
  channel is deleted when no parameter remains, otherwise it keeps the remaining ones.
\<close>

definition store_remaining :: "string \<Rightarrow> string list \<Rightarrow> client \<Rightarrow> client" where
  "store_remaining channel remaining_params s =
     (if remaining_params = [] then
        s\<lparr>subscribed_channels := dict_del channel (subscribed_channels s)\<rparr>
      else s\<lparr>subscribed_channels := dict_set channel remaining_params (subscribed_channels s)\<rparr>)"

text \<open>The unsubscribe message goes out when the client is connected and authenticated.\<close>

definition send_unsubscribe :: "env \<Rightarrow> string \<Rightarrow> string list \<Rightarrow> client \<Rightarrow> client" where
  "send_unsubscribe E channel params_to_unsubscribe s =
     (if is_connected s \<and> is_authenticated s then
        logger INFO ''Unsubscribed from channel with params''
          (send_message E (unsub_message channel params_to_unsubscribe) s)
      else logger WARNING ''WebSocket not ready. Unsubscription message will not be sent to the server, but internal state is updated.'' s)"

text \<open>
  The handlers are removed. \<^verbatim>\<open>if handler:\<close> reads the truth value of the argument:
  \<^verbatim>\<open>None\<close> is false, a handler object has the truth value the environment gives it. With
  a true handler, that handler is removed when it is in the list of the channel.
  Otherwise the whole entry of the channel is deleted, and only when no parameter remains.
\<close>

definition handler_given :: "env \<Rightarrow> handler option \<Rightarrow> bool" where
  "handler_given E handler = (case handler of None \<Rightarrow> False | Some h \<Rightarrow> handler_truth E h)"

definition remove_handlers ::
  "env \<Rightarrow> string \<Rightarrow> handler option \<Rightarrow> string list \<Rightarrow> client \<Rightarrow> client" where
  "remove_handlers E channel handler remaining_params s =
     (if dict_in channel (handlers s) then
        (if handler_given E handler then
           (case handler of
              Some h \<Rightarrow>
                (if h \<in> set (dict_list channel (handlers s)) then
                   logger INFO ''Removed specific handler for channel''
                     (s\<lparr>handlers := dict_set channel
                           (remove1 h (dict_list channel (handlers s))) (handlers s)\<rparr>)
                 else logger WARNING ''Handler not found for channel'' s)
            | None \<Rightarrow> s)
         else if remaining_params = [] then
           logger INFO ''Removed all handlers for channel''
             (s\<lparr>handlers := dict_del channel (handlers s)\<rparr>)
         else s)
      else s)"

text \<open>The whole of \<^verbatim>\<open>unsubscribe\<close>, with its two early returns.\<close>

definition unsubscribe ::
  "env \<Rightarrow> string \<Rightarrow> string list \<Rightarrow> handler option \<Rightarrow> client \<Rightarrow> client" where
  "unsubscribe E channel params handler s =
     (if \<not> dict_in channel (subscribed_channels s) then
        logger WARNING ''Not subscribed to channel'' s
      else
        (case take_params params [] (dict_list channel (subscribed_channels s)) of
           (params_to_unsubscribe, remaining_params) \<Rightarrow>
             if params_to_unsubscribe = [] then
               logger WARNING ''Not currently subscribed to channel with params'' s
             else
               remove_handlers E channel handler remaining_params
                 (send_unsubscribe E channel params_to_unsubscribe
                   (store_remaining channel remaining_params s))))"

section \<open>Incoming messages\<close>

text \<open>
  The calls that a handler makes on the client while it runs.
\<close>

fun client_call_step :: "env \<Rightarrow> client_call \<Rightarrow> client \<Rightarrow> client" where
  "client_call_step E (CallSubscribe channel params handler) s =
     subscribe E channel params handler s"
| "client_call_step E (CallUnsubscribe channel params handler) s =
     unsubscribe E channel params handler s"

text \<open>
  \<^verbatim>\<open>for handler in self.handlers[channel]\<close> reads \<^verbatim>\<open>self.handlers[channel]\<close> once and
  then walks that list object by index, so the loop sees what a handler does to the list
  while the loop runs. \<^verbatim>\<open>subscribe\<close> appends to the list object of the channel and
  \<^verbatim>\<open>unsubscribe\<close> removes from it in place; deleting the entry of the channel leaves the
  list object as it is, and a later \<^verbatim>\<open>subscribe\<close> puts a new list object under the key.
  The loop therefore carries the list it walks and whether that list is still the one in
  the registry: as long as it is, the list is read back from the registry after every call
  on the client; once the entry has been deleted, the list stays as it was.
\<close>

fun run_calls ::
  "env \<Rightarrow> string \<Rightarrow> client_call list \<Rightarrow> handler list \<Rightarrow> bool \<Rightarrow> client
     \<Rightarrow> handler list \<times> bool \<times> client" where
  "run_calls E channel [] walked attached s = (walked, attached, s)"
| "run_calls E channel (c # cs) walked attached s =
     (let s' = client_call_step E c s in
      if attached \<and> dict_in channel (handlers s') then
        run_calls E channel cs (dict_list channel (handlers s')) True s'
      else run_calls E channel cs walked False s')"

text \<open>
  One call \<^verbatim>\<open>handler(channel_data)\<close>: the call is recorded with its argument, the handler
  makes its calls on the client and ends the way the environment says.
\<close>

definition call_handler ::
  "env \<Rightarrow> string \<Rightarrow> json \<Rightarrow> handler \<Rightarrow> handler list \<Rightarrow> bool \<Rightarrow> client
     \<Rightarrow> outcome \<times> handler list \<times> bool \<times> client" where
  "call_handler E channel channel_data h walked attached s =
     (snd (behaviour E (length (calls s))),
      run_calls E channel (fst (behaviour E (length (calls s)))) walked attached
        (s\<lparr>calls := calls s @ [(h, channel_data)]\<rparr>))"

text \<open>
  The loop over the handlers of a channel, at index \<open>i\<close> of the list it walks. An
  exception derived from \<^verbatim>\<open>Exception\<close> is caught and logged, and the loop goes on. Any
  other exception is caught neither here nor by the handlers at the end of
  \<^verbatim>\<open>_on_message\<close>: it ends the loop and leaves the callback.
\<close>

function call_handlers ::
  "env \<Rightarrow> string \<Rightarrow> json \<Rightarrow> nat \<Rightarrow> handler list \<Rightarrow> bool \<Rightarrow> client \<Rightarrow> client" where
  "call_handlers E channel channel_data i walked attached s =
     (if i < length walked then
        (case call_handler E channel channel_data (walked ! i) walked attached s of
           (Returns, walked', attached', s') \<Rightarrow>
             call_handlers E channel channel_data (i + 1) walked' attached' s'
         | (RaisesException, walked', attached', s') \<Rightarrow>
             call_handlers E channel channel_data (i + 1) walked' attached'
               (logger ERROR ''Error in handler for channel'' s')
         | (RaisesBaseException, walked', attached', s') \<Rightarrow>
             s'\<lparr>uncaught := uncaught s' + 1\<rparr>)
      else s)"
  by pat_completeness auto

text \<open>
  The loop ends: a handler call either is one of the finitely many calls of the script, or
  leaves the walked list as it is, and then the index gets closer to the end of the list.
\<close>

termination
proof -
  have lg: "calls (logger lv m t) = calls t" for lv m t
    by (simp add: logger_def)
  have sm: "calls (send_message E m t) = calls t" for E m t
    by (simp add: send_message_def lg Let_def)
  have ah: "calls (add_handler c h t) = calls t" for c h t
    by (simp add: add_handler_def lg Let_def)
  have ap: "calls (fst (add_new_params c ps t)) = calls t" for c ps t
    by (simp add: add_new_params_def Let_def split: prod.splits)
  have sub: "calls (subscribe E c ps h t) = calls t" for E c ps h t
  proof -
    obtain s4 new where a: "add_new_params c ps (add_handler c h t) = (s4, new)"
      by (cases "add_new_params c ps (add_handler c h t)")
    then have "calls s4 = calls t"
      using ap [of c ps "add_handler c h t"] by (simp add: ah)
    then show ?thesis
      using a by (simp add: subscribe_def lg sm)
  qed
  have sr: "calls (store_remaining c r t) = calls t" for c r t
    by (simp add: store_remaining_def)
  have su: "calls (send_unsubscribe E c u t) = calls t" for E c u t
    by (simp add: send_unsubscribe_def lg sm)
  have rh: "calls (remove_handlers E c h r t) = calls t" for E c h r t
    by (simp add: remove_handlers_def lg split: option.splits)
  have unsub: "calls (unsubscribe E c ps h t) = calls t" for E c ps h t
    by (simp add: unsubscribe_def lg sr su rh split: prod.splits)
  have one: "calls (client_call_step E c t) = calls t" for E c t
    by (cases c) (simp_all add: sub unsub)
  have rc: "calls (snd (snd (run_calls E ch cs w a t))) = calls t" for E ch cs w a t
    by (induction cs arbitrary: w a t) (simp_all add: Let_def one)
  have ch: "length (calls s') = Suc (length (calls s))
            \<and> (length (handler_script E) \<le> length (calls s) \<longrightarrow> w' = w)"
    if "call_handler E ch d h w a s = (out, w', a', s')" for E ch d h w a s out w' a' s'
  proof -
    let ?b = "behaviour E (length (calls s))"
    let ?s1 = "s\<lparr>calls := calls s @ [(h, d)]\<rparr>"
    have r: "run_calls E ch (fst ?b) w a ?s1 = (w', a', s')"
      using that by (simp add: call_handler_def)
    have "calls s' = calls ?s1"
      using rc [of E ch "fst ?b" w a ?s1] r by simp
    moreover have "w' = w" if "length (handler_script E) \<le> length (calls s)"
      using that r by (simp add: behaviour_def)
    ultimately show ?thesis by simp
  qed
  show ?thesis
  proof (relation "measures
         [\<lambda>(E, channel, channel_data, i, walked, attached, s).
            length (handler_script E) - length (calls s),
          \<lambda>(E, channel, channel_data, i, walked, attached, s). length walked - i]",
         goal_cases)
    case 1
    show ?case by simp
  next
    case (2 E channel channel_data i walked attached s x y xa ya xb yb)
    then have "call_handler E channel channel_data (walked ! i) walked attached s
                 = (x, xa, xb, yb)"
      by simp
    from ch [OF this] 2(1) show ?case by auto
  next
    case (3 E channel channel_data i walked attached s x y xa ya xb yb)
    then have "call_handler E channel channel_data (walked ! i) walked attached s
                 = (x, xa, xb, yb)"
      by simp
    from ch [OF this] 3(1) show ?case by (auto simp: lg)
  qed
qed

declare call_handlers.simps [simp del]


text \<open>
  The branch of \<^verbatim>\<open>_on_message\<close> for a message with a channel and data. The keys of
  \<^verbatim>\<open>handlers\<close> are strings: an unhashable channel value raises inside the lookup, which
  the outer handler of \<^verbatim>\<open>_on_message\<close> logs; any other value that is not a string is
  not a key.
\<close>

definition dispatch :: "env \<Rightarrow> json \<Rightarrow> json \<Rightarrow> client \<Rightarrow> client" where
  "dispatch E channel channel_data s =
     (if \<not> hashable channel then logger ERROR ''Error processing message'' s
      else case channel of
          JStr c \<Rightarrow>
            (case dict_lookup c (handlers s) of
               Some hs \<Rightarrow> call_handlers E c channel_data 0 hs True s
             | None \<Rightarrow> logger DEBUG ''No handler registered for channel'' s)
        | _ \<Rightarrow> logger DEBUG ''No handler registered for channel'' s)"

definition on_message :: "env \<Rightarrow> loads_result \<Rightarrow> client \<Rightarrow> client" where
  "on_message E message s =
     (case message of
        JSONDecodeError \<Rightarrow> logger ERROR ''Failed to parse message'' s
      | Loaded data \<Rightarrow>
         (let s0 = logger DEBUG ''Received message'' s in
          if is_dict data \<and> dict_get ''op'' data = Some (JStr ''pong'') then
            logger DEBUG ''Received pong'' s0
          else if is_dict data \<and> dict_get ''op'' data = Some (JStr ''auth'') then
            (let success = (case dict_get ''success'' data of None \<Rightarrow> JBool False | Some v \<Rightarrow> v);
                 s1 = s0\<lparr>is_authenticated := truthy success\<rparr>
             in if truthy success then
                  resubscribe_channels E (logger INFO ''Authentication successful'' s1)
                else logger ERROR ''Authentication failed'' s1)
          else if is_dict data \<and> dict_get ''channel'' data \<noteq> None
                  \<and> dict_get ''data'' data \<noteq> None then
            (case (dict_get ''channel'' data, dict_get ''data'' data) of
               (Some channel, Some channel_data) \<Rightarrow> dispatch E channel channel_data s0
             | _ \<Rightarrow> s0)
          else if is_dict data \<and> dict_get ''event'' data = Some (JStr ''error'') then
            logger ERROR ''Received error message from server'' s0
          else s0))"

section \<open>Opening and closing the connection\<close>

text \<open>
  \<^verbatim>\<open>_start_ws_thread\<close>: nothing but a warning when the WebSocket thread is alive;
  otherwise a new \<^verbatim>\<open>WebSocketApp\<close> is created and its thread started.
\<close>

definition start_ws_thread :: "client \<Rightarrow> client" where
  "start_ws_thread s =
     (if ws_thread s = Some True then logger WARNING ''WebSocket thread is already running.'' s
      else (logger INFO ''Connecting...'' s)
             \<lparr>ws := Some (opens s), ws_thread := Some True, opens := opens s + 1\<rparr>)"

text \<open>\<^verbatim>\<open>connect\<close>, under the lock.\<close>

definition connect :: "client \<Rightarrow> client" where
  "connect s =
     (if running s then logger WARNING ''WebSocket client is already running or connecting.'' s
      else start_ws_thread (s\<lparr>running := True\<rparr>))"

text \<open>\<^verbatim>\<open>self.ws.close()\<close> inside its \<^verbatim>\<open>try\<close>: an exception is logged with the given text.\<close>

definition ws_close :: "env \<Rightarrow> string \<Rightarrow> client \<Rightarrow> client" where
  "ws_close E m s =
     (let s1 = s\<lparr>closes := closes s + 1\<rparr> in
      if close_raises E (closes s) then logger ERROR m s1 else s1)"

text \<open>\<^verbatim>\<open>disconnect\<close>, under the lock.\<close>

definition disconnect :: "env \<Rightarrow> client \<Rightarrow> client" where
  "disconnect E s =
     (if \<not> running s then logger WARNING ''WebSocket client is not running.'' s
      else
        (let s1 = (logger INFO ''Disconnecting WebSocket...'' s)\<lparr>running := False\<rparr>;
             s2 = (if ws s1 \<noteq> None then ws_close E ''Error closing WebSocket'' s1 else s1);
             s3 = (if ws_thread s2 = Some True then
                     (let s' = logger DEBUG ''Waiting for WebSocket thread to terminate...'' s2 in
                      if join_times_out E then
                        logger WARNING ''WebSocket thread did not terminate gracefully.'' s'
                      else (logger DEBUG ''WebSocket thread terminated.'' s')
                             \<lparr>ws_thread := Some False\<rparr>)
                   else s2)
         in logger INFO ''WebSocket disconnected.''
              (s3\<lparr>ws := None, ws_thread := None, ping_thread := None,
                  is_connected := False, is_authenticated := False\<rparr>)))"

text \<open>
  \<^verbatim>\<open>_attempt_reconnect\<close> suspends its thread in \<^verbatim>\<open>time.sleep(wait_time)\<close>, where other
  threads run. It is modelled in two parts. The first part runs up to the start of the
  sleep and says whether the function goes on after it; the second part is what follows
  the sleep.
\<close>

definition attempt_reconnect_pre :: "client \<Rightarrow> client \<times> bool" where
  "attempt_reconnect_pre s =
     (if \<not> running s then
        (logger INFO ''Reconnect attempt aborted as the client is not running.'' s, False)
      else if int (reconnect_attempts s) < max_reconnect_attempts s then
        (let s1 = s\<lparr>reconnect_attempts := reconnect_attempts s + 1\<rparr>;
             wait_time = reconnect_interval s1 * 2 ^ (reconnect_attempts s1 - 1)
         in (sleep wait_time (logger INFO ''Attempting reconnect'' s1), True))
      else
        ((logger ERROR ''Max reconnect attempts reached. Giving up.'' s)\<lparr>running := False\<rparr>,
         False))"

definition attempt_reconnect_post :: "env \<Rightarrow> client \<Rightarrow> client" where
  "attempt_reconnect_post E s =
     start_ws_thread
       (if ws s \<noteq> None then ws_close E ''Error closing WebSocket before reconnect'' s else s)"

text \<open>The whole function, when no other thread runs during the sleep.\<close>

definition attempt_reconnect :: "env \<Rightarrow> client \<Rightarrow> client" where
  "attempt_reconnect E s =
     (case attempt_reconnect_pre s of
        (s1, True) \<Rightarrow> attempt_reconnect_post E s1
      | (s1, False) \<Rightarrow> s1)"

text \<open>\<^verbatim>\<open>_on_error\<close>.\<close>

definition on_error :: "client \<Rightarrow> client" where
  "on_error s = (logger ERROR ''WebSocket error'' s)\<lparr>is_connected := False, is_authenticated := False\<rparr>"

text \<open>
  \<^verbatim>\<open>_on_close\<close>, in the same two parts as \<^verbatim>\<open>_attempt_reconnect\<close>, which it calls last.
\<close>

definition on_close_pre :: "client \<Rightarrow> client \<times> bool" where
  "on_close_pre s =
     (let s1 = (logger INFO ''WebSocket connection closed'' s)
                 \<lparr>is_connected := False, is_authenticated := False\<rparr>
      in if running s1 then
           attempt_reconnect_pre
             (logger WARNING ''Connection closed unexpectedly. Attempting to reconnect...'' s1)
         else (logger INFO ''WebSocket closed intentionally.'' s1, False))"

definition on_close :: "env \<Rightarrow> client \<Rightarrow> client" where
  "on_close E s =
     (case on_close_pre s of
        (s1, True) \<Rightarrow> attempt_reconnect_post E s1
      | (s1, False) \<Rightarrow> s1)"

text \<open>\<^verbatim>\<open>_on_open\<close>.\<close>

definition on_open :: "env \<Rightarrow> client \<Rightarrow> client" where
  "on_open E s =
     (let s1 = (logger INFO ''WebSocket connection opened'' s)
                 \<lparr>is_connected := True, reconnect_attempts := 0\<rparr>;
          s2 = send_message E (auth_message (api_key s1)) s1
      in s2\<lparr>ping_thread := Some (pings_started s2), pings_started := pings_started s2 + 1\<rparr>)"

section \<open>Runs of the client\<close>

text \<open>
  The calls of the application and the callbacks of the WebSocket thread, each run to its
  end before the next one starts. \<open>Heartbeat n\<close> is a ping thread that runs for at most
  \<open>n\<close> iterations; \<open>ThreadExit\<close> is the return of \<^verbatim>\<open>run_forever\<close>, which ends the
  WebSocket thread.

  \<open>OnClose\<close> is a close callback during whose backoff sleep nothing else runs. The
  close callback of a thread that sleeps while other calls and callbacks run is two
  events: \<open>OnCloseUntilSleep\<close> runs the callback up to the start of the sleep and leaves
  the thread suspended there, and \<open>WakeUp\<close> runs what follows the sleep for one suspended
  thread, when there is one.
\<close>

datatype event =
    Connect
  | Disconnect
  | OnOpen
  | OnMessage loads_result
  | OnError
  | OnClose
  | Subscribe string "string list" handler
  | Unsubscribe string "string list" "handler option"
  | Heartbeat nat
  | ThreadExit
  | OnCloseUntilSleep
  | WakeUp

fun step :: "env \<Rightarrow> event \<Rightarrow> client \<Rightarrow> client" where
  "step E Connect s = connect s"
| "step E Disconnect s = disconnect E s"
| "step E OnOpen s = on_open E s"
| "step E (OnMessage m) s = on_message E m s"
| "step E OnError s = on_error s"
| "step E OnClose s = on_close E s"
| "step E (Subscribe channel params handler) s = subscribe E channel params handler s"
| "step E (Unsubscribe channel params handler) s = unsubscribe E channel params handler s"
| "step E (Heartbeat n) s = snd (send_ping E n s)"
| "step E ThreadExit s =
     (case ws_thread s of None \<Rightarrow> s | Some alive \<Rightarrow> s\<lparr>ws_thread := Some False\<rparr>)"
| "step E OnCloseUntilSleep s =
     (case on_close_pre s of
        (s1, True) \<Rightarrow> s1\<lparr>sleepers := sleepers s1 + 1\<rparr>
      | (s1, False) \<Rightarrow> s1)"
| "step E WakeUp s =
     (if 0 < sleepers s then attempt_reconnect_post E (s\<lparr>sleepers := sleepers s - 1\<rparr>)
      else s)"

fun run :: "env \<Rightarrow> event list \<Rightarrow> client \<Rightarrow> client" where
  "run E [] s = s"
| "run E (e # es) s = run E es (step E e s)"


text \<open>The number of log records of exceptions caught in the handler loop.\<close>

definition handler_errors :: "client \<Rightarrow> nat" where
  "handler_errors s =
     length (filter (\<lambda>r. r = (ERROR, ''Error in handler for channel'')) (logs s))"

text \<open>A decoded message with a channel and data: the messages that can reach the handlers.\<close>

fun reaches_handlers :: "loads_result \<Rightarrow> bool" where
  "reaches_handlers JSONDecodeError = False"
| "reaches_handlers (Loaded data) =
     (dict_get ''channel'' data \<noteq> None \<and> dict_get ''data'' data \<noteq> None)"

text \<open>
  The events that can change the two registries: the two calls that are meant to, and a
  message that reaches the handlers, which may make those calls.
\<close>

fun changes_registry :: "event \<Rightarrow> bool" where
  "changes_registry (Subscribe channel params handler) = True"
| "changes_registry (Unsubscribe channel params handler) = True"
| "changes_registry (OnMessage m) = reaches_handlers m"
| "changes_registry e = False"

section \<open>Example inputs\<close>

text \<open>
  An environment in which no call raises, the WebSocket thread ends within the join, and
  every handler is a true object that returns without calling the client.
\<close>

definition quiet :: env where
  "quiet = \<lparr>send_raises = (\<lambda>n. False), close_raises = (\<lambda>n. False),
             join_times_out = False, handler_script = [], handler_truth = (\<lambda>h. True)\<rparr>"

text \<open>An environment in which exactly the n-th call of \<^verbatim>\<open>ws.send\<close> raises.\<close>

definition send_fails_at :: "nat \<Rightarrow> env" where
  "send_fails_at n = quiet\<lparr>send_raises := (\<lambda>i. i = n)\<rparr>"

text \<open>An environment in which the WebSocket thread outlives the join of \<^verbatim>\<open>disconnect\<close>.\<close>

definition slow_join :: env where
  "slow_join = quiet\<lparr>join_times_out := True\<rparr>"

text \<open>A client after \<^verbatim>\<open>connect()\<close> and the open callback.\<close>

definition connected_client :: client where
  "connected_client = run quiet [Connect, OnOpen] (init ''key'' False)"

text \<open>
  The same client with \<^verbatim>\<open>reconnect_interval\<close> set to 30 seconds: its first backoff sleep
  is longer than the 5 seconds that \<^verbatim>\<open>disconnect()\<close> waits for the WebSocket thread.
\<close>

definition patient_client :: client where
  "patient_client = connected_client\<lparr>reconnect_interval := 30\<rparr>"

text \<open>The reply \<^verbatim>\<open>{"op": "auth", "success": false, "message": "bad key"}\<close>.\<close>

definition bad_key_reply :: "(string \<times> json) list" where
  "bad_key_reply = [(''op'', JStr ''auth''), (''success'', JBool False), (''message'', JStr ''bad key'')]"

text \<open>
  A connection that fails before it opens, with the application starting over: the error
  and close callbacks run, the WebSocket thread ends, and the application calls
  \<^verbatim>\<open>disconnect()\<close> before its next \<^verbatim>\<open>connect()\<close>.
\<close>

definition failed_connection :: "event list" where
  "failed_connection = [Connect, OnError, OnClose, ThreadExit, Disconnect]"

text \<open>
  A client with the settings of the constructor whose fifth and last attempt is asleep.
  Four connections have failed. The fifth fails too, and its close callback takes the last
  attempt and sleeps for 80 seconds. During the sleep the application calls
  \<^verbatim>\<open>disconnect()\<close>, whose join times out, and \<^verbatim>\<open>connect()\<close>; the new connection fails
  with an error.
\<close>

definition exhausted_client :: client where
  "exhausted_client =
     run slow_join
       (failed_connection @ failed_connection @ failed_connection @ failed_connection
        @ [Connect, OnError, OnCloseUntilSleep, Disconnect, Connect, OnError])
       (init ''key'' False)"







text \<open>The reply \<^verbatim>\<open>{"op": "auth", "success": true}\<close>.\<close>

definition auth_ok_reply :: "(string \<times> json) list" where
  "auth_ok_reply = [(''op'', JStr ''auth''), (''success'', JBool True)]"

text \<open>
  A client that has subscribed to \<^verbatim>\<open>liquidation\<close> with \<^verbatim>\<open>["BTC", "ETH"]\<close>, has lost its
  connection and has opened a new one, before the reply to the new auth message.
\<close>

definition reconnected_client :: client where
  "reconnected_client =
     run quiet [Connect, OnOpen, OnMessage (Loaded (JObj auth_ok_reply)),
                Subscribe ''liquidation'' [''BTC'', ''ETH''] 7, ThreadExit, OnClose, OnOpen]
       (init ''key'' False)"

text \<open>A client that is connected and authenticated, with nothing subscribed.\<close>

definition authenticated_client :: client where
  "authenticated_client =
     run quiet [Connect, OnOpen, OnMessage (Loaded (JObj auth_ok_reply))] (init ''key'' False)"

text \<open>The same client after \<^verbatim>\<open>subscribe("liquidation", ["BTC", "ETH"], handler 7)\<close>.\<close>

definition subscribed_client :: client where
  "subscribed_client = subscribe quiet ''liquidation'' [''BTC'', ''ETH''] 7 authenticated_client"

section \<open>Basic facts\<close>

lemma logger_fields [simp]:
  "ws (logger lv m s) = ws s"
  "is_connected (logger lv m s) = is_connected s"
  "is_authenticated (logger lv m s) = is_authenticated s"
  "subscribed_channels (logger lv m s) = subscribed_channels s"
  "handlers (logger lv m s) = handlers s"
  "reconnect_interval (logger lv m s) = reconnect_interval s"
  "max_reconnect_attempts (logger lv m s) = max_reconnect_attempts s"
  "reconnect_attempts (logger lv m s) = reconnect_attempts s"
  "running (logger lv m s) = running s"
  "ws_thread (logger lv m s) = ws_thread s"
  "sends (logger lv m s) = sends s"
  "closes (logger lv m s) = closes s"
  "opens (logger lv m s) = opens s"
  "sleeps (logger lv m s) = sleeps s"
  "calls (logger lv m s) = calls s"
  "api_key (logger lv m s) = api_key s"
  "pings_started (logger lv m s) = pings_started s"
  "sleepers (logger lv m s) = sleepers s"
  "uncaught (logger lv m s) = uncaught s"
  "logs (logger lv m s) = logs s @ [(lv, m)]"
  by (simp_all add: logger_def)

lemma send_message_fields [simp]:
  "ws (send_message E m s) = ws s"
  "is_connected (send_message E m s) = is_connected s"
  "is_authenticated (send_message E m s) = is_authenticated s"
  "subscribed_channels (send_message E m s) = subscribed_channels s"
  "handlers (send_message E m s) = handlers s"
  "reconnect_interval (send_message E m s) = reconnect_interval s"
  "max_reconnect_attempts (send_message E m s) = max_reconnect_attempts s"
  "reconnect_attempts (send_message E m s) = reconnect_attempts s"
  "running (send_message E m s) = running s"
  "ws_thread (send_message E m s) = ws_thread s"
  "closes (send_message E m s) = closes s"
  "opens (send_message E m s) = opens s"
  "sleeps (send_message E m s) = sleeps s"
  "calls (send_message E m s) = calls s"
  "api_key (send_message E m s) = api_key s"
  "pings_started (send_message E m s) = pings_started s"
  "sleepers (send_message E m s) = sleepers s"
  "uncaught (send_message E m s) = uncaught s"
  by (simp_all add: send_message_def Let_def)

lemma send_message_sends:
  "sends (send_message E m s) =
     (if ws s \<noteq> None \<and> is_connected s then sends s @ [m] else sends s)"
  by (simp add: send_message_def Let_def)

lemmas reconnect_defs =
  on_close_def on_close_pre_def attempt_reconnect_pre_def attempt_reconnect_post_def
  start_ws_thread_def ws_close_def sleep_def Let_def

lemma connected_client_fields:
  "running connected_client" "is_connected connected_client" "ws connected_client = Some 0"
  "reconnect_attempts connected_client = 0" "max_reconnect_attempts connected_client = 5"
  "reconnect_interval connected_client = 5" "sleeps connected_client = []"
  "sends connected_client = [auth_message ''key'']" "opens connected_client = 1"
  "subscribed_channels connected_client = []" "handlers connected_client = []"
  "is_authenticated connected_client = False" "calls connected_client = []"
  by (simp_all add: connected_client_def quiet_def init_def connect_def on_open_def
      start_ws_thread_def send_message_def Let_def)

section \<open>Authentication failure\<close>

text \<open>
  Claim C6. A decoded message whose \<^verbatim>\<open>op\<close> is \<^verbatim>\<open>"auth"\<close> and whose \<^verbatim>\<open>success\<close> entry is
  false (or missing, or any other false value) changes two things only: the authenticated
  flag is false afterwards, and the log gains the record of the received message and the
  error record of the failed authentication. The connected flag is as before, nothing is
  handed to \<^verbatim>\<open>ws.send\<close> (no subscribe message of a replay, no second auth message), and
  both registries are as before.
\<close>

theorem auth_failure:
  assumes "dict_get ''op'' (JObj kvs) = Some (JStr ''auth'')"
    and "\<not> truthy (case dict_get ''success'' (JObj kvs) of None \<Rightarrow> JBool False | Some v \<Rightarrow> v)"
  shows "on_message E (Loaded (JObj kvs)) s =
           s\<lparr>is_authenticated := False,
             logs := logs s @ [(DEBUG, ''Received message''), (ERROR, ''Authentication failed'')]\<rparr>"
  using assms by (simp add: on_message_def Let_def logger_def)

theorem auth_failure_witness:
  "dict_get ''op'' (JObj bad_key_reply) = Some (JStr ''auth'')
   \<and> \<not> truthy (case dict_get ''success'' (JObj bad_key_reply) of
                 None \<Rightarrow> JBool False | Some v \<Rightarrow> v)
   \<and> is_connected (on_message quiet (Loaded (JObj bad_key_reply)) connected_client)
   \<and> \<not> is_authenticated (on_message quiet (Loaded (JObj bad_key_reply)) connected_client)
   \<and> sends (on_message quiet (Loaded (JObj bad_key_reply)) connected_client)
       = sends connected_client
   \<and> logs (on_message quiet (Loaded (JObj bad_key_reply)) connected_client)
       = logs connected_client
         @ [(DEBUG, ''Received message''), (ERROR, ''Authentication failed'')]"
proof -
  have h1: "dict_get ''op'' (JObj bad_key_reply) = Some (JStr ''auth'')"
    by (simp add: bad_key_reply_def)
  have h2: "\<not> truthy (case dict_get ''success'' (JObj bad_key_reply) of
                        None \<Rightarrow> JBool False | Some v \<Rightarrow> v)"
    by (simp add: bad_key_reply_def)
  show ?thesis
    using h1 h2 auth_failure [OF h1 h2, of quiet connected_client]
    by (simp add: connected_client_fields)
qed

section \<open>Backoff\<close>

text \<open>
  The two parts put together are the callback as it is written: the flags are cleared,
  and \<^verbatim>\<open>_attempt_reconnect\<close> is called when the client is running.
\<close>

lemma on_close_attempt_reconnect:
  "on_close E s =
     (let s1 = (logger INFO ''WebSocket connection closed'' s)
                 \<lparr>is_connected := False, is_authenticated := False\<rparr>
      in if running s1 then
           attempt_reconnect E
             (logger WARNING ''Connection closed unexpectedly. Attempting to reconnect...'' s1)
         else logger INFO ''WebSocket closed intentionally.'' s1)"
  by (simp add: on_close_def on_close_pre_def attempt_reconnect_def Let_def)

lemma on_close_retry:
  assumes "running s" and "int (reconnect_attempts s) < max_reconnect_attempts s"
  shows "reconnect_attempts (on_close E s) = reconnect_attempts s + 1"
    and "sleeps (on_close E s) = sleeps s @ [reconnect_interval s * 2 ^ reconnect_attempts s]"
    and "running (on_close E s)"
    and "max_reconnect_attempts (on_close E s) = max_reconnect_attempts s"
    and "reconnect_interval (on_close E s) = reconnect_interval s"
  using assms by (simp_all add: reconnect_defs)

lemma connect_init:
  "running (connect (init key dbg))"
  "reconnect_attempts (connect (init key dbg)) = 0"
  "max_reconnect_attempts (connect (init key dbg)) = 5"
  "reconnect_interval (connect (init key dbg)) = 5"
  "sleeps (connect (init key dbg)) = []"
  by (simp_all add: connect_def init_def start_ws_thread_def)

lemma default_backoff:
  "sleeps (run E [Connect, OnClose, OnClose, OnClose, OnClose, OnClose] (init key dbg))
     = [5, 10, 20, 40, 80]"
proof -
  let ?s0 = "connect (init key dbg)"
  let ?s1 = "on_close E ?s0"
  let ?s2 = "on_close E ?s1"
  let ?s3 = "on_close E ?s2"
  let ?s4 = "on_close E ?s3"
  let ?s5 = "on_close E ?s4"
  have a1: "running ?s1 \<and> reconnect_attempts ?s1 = 1 \<and> max_reconnect_attempts ?s1 = 5
            \<and> reconnect_interval ?s1 = 5 \<and> sleeps ?s1 = [5]"
    using on_close_retry [of ?s0 E] by (simp add: connect_init)
  have a2: "running ?s2 \<and> reconnect_attempts ?s2 = 2 \<and> max_reconnect_attempts ?s2 = 5
            \<and> reconnect_interval ?s2 = 5 \<and> sleeps ?s2 = [5, 10]"
    using on_close_retry [of ?s1 E] a1 by simp
  have a3: "running ?s3 \<and> reconnect_attempts ?s3 = 3 \<and> max_reconnect_attempts ?s3 = 5
            \<and> reconnect_interval ?s3 = 5 \<and> sleeps ?s3 = [5, 10, 20]"
    using on_close_retry [of ?s2 E] a2 by simp
  have a4: "running ?s4 \<and> reconnect_attempts ?s4 = 4 \<and> max_reconnect_attempts ?s4 = 5
            \<and> reconnect_interval ?s4 = 5 \<and> sleeps ?s4 = [5, 10, 20, 40]"
    using on_close_retry [of ?s3 E] a3 by simp
  have "sleeps ?s5 = [5, 10, 20, 40, 80]"
    using on_close_retry [of ?s4 E] a4 by simp
  then show ?thesis by simp
qed

text \<open>
  Claim C7. When the close callback runs on a client that is running and whose attempt
  counter is below the maximum, the counter is incremented and the thread sleeps for
  \<^verbatim>\<open>reconnect_interval\<close> times 2 to the power (attempt - 1), where attempt is the
  incremented counter; the sleep comes before the part of the function that re-opens.
  With the values set by the constructor, five closes in a row after \<^verbatim>\<open>connect()\<close> sleep
  for 5, 10, 20, 40 and 80 seconds.
\<close>

theorem backoff_delay:
  assumes "running s" and "int (reconnect_attempts s) < max_reconnect_attempts s"
  shows "reconnect_attempts (on_close E s) = reconnect_attempts s + 1
       \<and> sleeps (on_close E s)
           = sleeps s @ [reconnect_interval s * 2 ^ (reconnect_attempts (on_close E s) - 1)]
       \<and> snd (on_close_pre s)
       \<and> sleeps (fst (on_close_pre s)) = sleeps (on_close E s)
       \<and> opens (fst (on_close_pre s)) = opens s
       \<and> on_close E s = attempt_reconnect_post E (fst (on_close_pre s))
       \<and> sleeps (run E [Connect, OnClose, OnClose, OnClose, OnClose, OnClose] (init key dbg))
           = [5, 10, 20, 40, 80]"
  using assms default_backoff [of E key dbg] by (simp add: reconnect_defs)

theorem backoff_delay_witness:
  "running connected_client
   \<and> int (reconnect_attempts connected_client) < max_reconnect_attempts connected_client
   \<and> reconnect_attempts (on_close quiet connected_client) = 1
   \<and> sleeps (on_close quiet connected_client) = [5]"
proof -
  have h1: "running connected_client"
    by (simp add: connected_client_fields)
  have h2: "int (reconnect_attempts connected_client) < max_reconnect_attempts connected_client"
    by (simp add: connected_client_fields)
  from backoff_delay [OF h1 h2, of quiet "''key''" False]
  have "reconnect_attempts (on_close quiet connected_client)
          = reconnect_attempts connected_client + 1"
    and "sleeps (on_close quiet connected_client)
          = sleeps connected_client
            @ [reconnect_interval connected_client
               * 2 ^ (reconnect_attempts (on_close quiet connected_client) - 1)]"
    by blast+
  with h1 h2 show ?thesis
    by (simp add: connected_client_fields)
qed

section \<open>The heartbeat loop and transmission errors\<close>

lemma send_ping_body_Inr:
  "\<exists>s'. send_ping_body E s = Inr s' \<and> running s' = running s
        \<and> is_connected s' = is_connected s \<and> ws s' = ws s
        \<and> sends s' = (if ws s \<noteq> None \<and> is_connected s then sends s @ [ping_message]
                       else sends s)"
  by (simp add: send_ping_body_def sleep_def send_message_sends)

lemma send_ping_runs_on:
  assumes "running s" and "is_connected s" and "ws s \<noteq> None"
  shows "\<not> fst (send_ping E n s)
       \<and> sends (snd (send_ping E n s)) = sends s @ replicate n ping_message"
  using assms
proof (induction n arbitrary: s)
  case 0
  then show ?case by simp
next
  case (Suc n)
  obtain s' where b: "send_ping_body E s = Inr s'" "running s'" "is_connected s'"
      "ws s' \<noteq> None" "sends s' = sends s @ [ping_message]"
    using send_ping_body_Inr [of E s] Suc.prems by auto
  from Suc.IH [OF b(2,3,4)] b(1,5) Suc.prems show ?case
    by (simp add: replicate_app_Cons_same)
qed

text \<open>
  Claim C9 says that a transmission error while sending a ping ends the heartbeat loop.
  In the code the error never reaches the loop: \<^verbatim>\<open>_send_message\<close> catches it and logs
  it, so the \<^verbatim>\<open>except\<close> branch of \<^verbatim>\<open>_send_ping\<close> with its \<^verbatim>\<open>break\<close> is not taken. On a
  running, connected client whose next \<^verbatim>\<open>ws.send\<close> raises, the body of the loop returns
  normally with the error logged by \<^verbatim>\<open>_send_message\<close>, and the loop goes on: after any
  number of further iterations it has not returned and has handed one more ping to
  \<^verbatim>\<open>ws.send\<close> in each of them.
\<close>

theorem ping_loop_continues_after_send_error:
  assumes "running s" and "is_connected s" and "ws s \<noteq> None"
    and "send_raises E (length (sends s))"
  shows "send_ping_body E s
           = Inr (sleep PING_INTERVAL (logger DEBUG ''Sent ping''
                   (logger ERROR ''Error sending message''
                     (s\<lparr>sends := sends s @ [ping_message]\<rparr>))))
       \<and> \<not> fst (send_ping E (Suc n) s)
       \<and> sends (snd (send_ping E (Suc n) s)) = sends s @ replicate (Suc n) ping_message"
  using assms send_ping_runs_on [of s E "Suc n"]
  by (simp add: send_ping_body_def send_message_def Let_def)

theorem ping_loop_continues_after_send_error_witness:
  "running connected_client \<and> is_connected connected_client \<and> ws connected_client \<noteq> None
   \<and> send_raises (send_fails_at 1) (length (sends connected_client))
   \<and> \<not> fst (send_ping (send_fails_at 1) 3 connected_client)
   \<and> sends (snd (send_ping (send_fails_at 1) 3 connected_client))
       = [auth_message ''key'', ping_message, ping_message, ping_message]"
proof -
  have h: "running connected_client" "is_connected connected_client"
      "ws connected_client \<noteq> None"
      "send_raises (send_fails_at 1) (length (sends connected_client))"
    by (simp_all add: connected_client_fields send_fails_at_def)
  from ping_loop_continues_after_send_error [OF h, of 2]
  have "\<not> fst (send_ping (send_fails_at 1) (Suc 2) connected_client)"
    and "sends (snd (send_ping (send_fails_at 1) (Suc 2) connected_client))
           = sends connected_client @ replicate (Suc 2) ping_message"
    by blast+
  with h show ?thesis
    by (simp add: connected_client_fields numeral_3_eq_3)
qed

section \<open>Disconnecting during the backoff sleep\<close>

text \<open>
  Claim C1 says that a \<^verbatim>\<open>disconnect()\<close> during the backoff sleep makes the reconnect path
  give up without opening a new connection. In the code \<^verbatim>\<open>_attempt_reconnect\<close> reads
  \<^verbatim>\<open>running\<close> before the sleep only. When the close callback has started the sleep on a
  running client with attempts left, and \<^verbatim>\<open>disconnect()\<close> runs to its end during the
  sleep, then \<^verbatim>\<open>running\<close> is false, \<^verbatim>\<open>ws\<close> and \<^verbatim>\<open>_ws_thread\<close> are \<^verbatim>\<open>None\<close>, and the part
  of \<^verbatim>\<open>_attempt_reconnect\<close> after the sleep creates a new \<^verbatim>\<open>WebSocketApp\<close> and starts
  its thread all the same.
\<close>

theorem reopen_after_disconnect:
  assumes "running s" and "int (reconnect_attempts s) < max_reconnect_attempts s"
  shows "snd (on_close_pre s)
       \<and> \<not> running (disconnect E (fst (on_close_pre s)))
       \<and> ws (disconnect E (fst (on_close_pre s))) = None
       \<and> opens (attempt_reconnect_post E (disconnect E (fst (on_close_pre s))))
           = opens (disconnect E (fst (on_close_pre s))) + 1
       \<and> ws (attempt_reconnect_post E (disconnect E (fst (on_close_pre s)))) \<noteq> None
       \<and> \<not> running (attempt_reconnect_post E (disconnect E (fst (on_close_pre s))))"
  using assms
  by (simp add: on_close_pre_def attempt_reconnect_pre_def attempt_reconnect_post_def
      disconnect_def start_ws_thread_def ws_close_def sleep_def Let_def)

theorem reopen_after_disconnect_witness:
  "running patient_client
   \<and> int (reconnect_attempts patient_client) < max_reconnect_attempts patient_client
   \<and> snd (on_close_pre patient_client)
   \<and> sleeps (fst (on_close_pre patient_client)) = [30]
   \<and> \<not> running (disconnect slow_join (fst (on_close_pre patient_client)))
   \<and> opens (disconnect slow_join (fst (on_close_pre patient_client))) = 1
   \<and> opens (attempt_reconnect_post slow_join
              (disconnect slow_join (fst (on_close_pre patient_client)))) = 2"
proof -
  have h1: "running patient_client"
    by code_simp
  have h2: "int (reconnect_attempts patient_client) < max_reconnect_attempts patient_client"
    by code_simp
  have o: "sleeps (fst (on_close_pre patient_client)) = [30]"
      "opens (disconnect slow_join (fst (on_close_pre patient_client))) = 1"
    by code_simp+
  from reopen_after_disconnect [OF h1 h2, of slow_join]
  have "snd (on_close_pre patient_client)"
    and "\<not> running (disconnect slow_join (fst (on_close_pre patient_client)))"
    and "opens (attempt_reconnect_post slow_join
                 (disconnect slow_join (fst (on_close_pre patient_client))))
           = opens (disconnect slow_join (fst (on_close_pre patient_client))) + 1"
    by blast+
  with h1 h2 o show ?thesis by simp
qed

section \<open>Facts about dictionaries\<close>

lemma map_of_dict_set [simp]: "map_of (dict_set k v d) = (map_of d)(k \<mapsto> v)"
  by (induction d) (auto simp: fun_eq_iff)

lemma dict_set_same: "map_of d k = Some v \<Longrightarrow> dict_set k v d = d"
  by (induction d) auto

lemma dict_set_twice [simp]: "dict_set k v (dict_set k w d) = dict_set k v d"
  by (induction d) auto

lemma dict_in_dict_set [simp]: "dict_in k (dict_set k v d)"
  by (simp add: dict_in_def)

lemma dict_list_dict_set [simp]: "dict_list k (dict_set k v d) = v"
  by (simp add: dict_list_def)

lemma dict_list_dict_set_other: "k' \<noteq> k \<Longrightarrow> dict_list k' (dict_set k v d) = dict_list k' d"
  by (simp add: dict_list_def)

lemma dict_list_absent: "\<not> dict_in k d \<Longrightarrow> dict_list k d = []"
  by (simp add: dict_in_def dict_list_def)

lemma dict_set_dict_list: "dict_in k d \<Longrightarrow> dict_set k (dict_list k d) d = d"
  by (auto simp: dict_in_def dict_list_def intro: dict_set_same)

lemma dict_in_nonempty: "dict_list k d \<noteq> [] \<Longrightarrow> dict_in k d"
  by (auto simp: dict_in_def dict_list_def split: option.splits)

lemma map_of_dict_del [simp]: "map_of (dict_del k d) = (map_of d)(k := None)"
  by (induction d) (auto simp: fun_eq_iff)

lemma dict_list_dict_del [simp]: "dict_list k (dict_del k d) = []"
  by (simp add: dict_list_def)

lemma dict_list_dict_set_if:
  "dict_list c (dict_set k v d) = (if c = k then v else dict_list c d)"
  by (simp add: dict_list_def)

lemma dict_list_dict_del_if:
  "dict_list c (dict_del k d) = (if c = k then [] else dict_list c d)"
  by (simp add: dict_list_def)

section \<open>What each operation leaves alone\<close>

lemma resubscribe_items_frame [simp]:
  "running (resubscribe_items E items s) = running s"
  "reconnect_attempts (resubscribe_items E items s) = reconnect_attempts s"
  "max_reconnect_attempts (resubscribe_items E items s) = max_reconnect_attempts s"
  "opens (resubscribe_items E items s) = opens s"
  "subscribed_channels (resubscribe_items E items s) = subscribed_channels s"
  "handlers (resubscribe_items E items s) = handlers s"
  "is_connected (resubscribe_items E items s) = is_connected s"
  "is_authenticated (resubscribe_items E items s) = is_authenticated s"
  "ws (resubscribe_items E items s) = ws s"
  "calls (resubscribe_items E items s) = calls s"
  "ws_thread (resubscribe_items E items s) = ws_thread s"
  "sleepers (resubscribe_items E items s) = sleepers s"
  by (induction E items s rule: resubscribe_items.induct; simp)+

lemma resubscribe_channels_frame [simp]:
  "running (resubscribe_channels E s) = running s"
  "reconnect_attempts (resubscribe_channels E s) = reconnect_attempts s"
  "max_reconnect_attempts (resubscribe_channels E s) = max_reconnect_attempts s"
  "opens (resubscribe_channels E s) = opens s"
  "subscribed_channels (resubscribe_channels E s) = subscribed_channels s"
  "handlers (resubscribe_channels E s) = handlers s"
  "is_connected (resubscribe_channels E s) = is_connected s"
  "ws (resubscribe_channels E s) = ws s"
  "calls (resubscribe_channels E s) = calls s"
  "ws_thread (resubscribe_channels E s) = ws_thread s"
  "sleepers (resubscribe_channels E s) = sleepers s"
  by (simp_all add: resubscribe_channels_def)

lemma send_ping_frame [simp]:
  "running (snd (send_ping E n s)) = running s"
  "reconnect_attempts (snd (send_ping E n s)) = reconnect_attempts s"
  "max_reconnect_attempts (snd (send_ping E n s)) = max_reconnect_attempts s"
  "opens (snd (send_ping E n s)) = opens s"
  by (induction n arbitrary: s; simp add: send_ping_body_def sleep_def)+

lemma add_handler_frame [simp]:
  "running (add_handler c h s) = running s"
  "reconnect_attempts (add_handler c h s) = reconnect_attempts s"
  "max_reconnect_attempts (add_handler c h s) = max_reconnect_attempts s"
  "opens (add_handler c h s) = opens s"
  "ws (add_handler c h s) = ws s"
  "is_connected (add_handler c h s) = is_connected s"
  "is_authenticated (add_handler c h s) = is_authenticated s"
  "ws_thread (add_handler c h s) = ws_thread s"
  "sleepers (add_handler c h s) = sleepers s"
  "subscribed_channels (add_handler c h s) = subscribed_channels s"
  "sends (add_handler c h s) = sends s"
  "calls (add_handler c h s) = calls s"
  by (simp_all add: add_handler_def Let_def)

lemma add_new_params_frame [simp]:
  "running (fst (add_new_params c ps s)) = running s"
  "reconnect_attempts (fst (add_new_params c ps s)) = reconnect_attempts s"
  "max_reconnect_attempts (fst (add_new_params c ps s)) = max_reconnect_attempts s"
  "opens (fst (add_new_params c ps s)) = opens s"
  "ws (fst (add_new_params c ps s)) = ws s"
  "is_connected (fst (add_new_params c ps s)) = is_connected s"
  "is_authenticated (fst (add_new_params c ps s)) = is_authenticated s"
  "ws_thread (fst (add_new_params c ps s)) = ws_thread s"
  "sleepers (fst (add_new_params c ps s)) = sleepers s"
  "handlers (fst (add_new_params c ps s)) = handlers s"
  "sends (fst (add_new_params c ps s)) = sends s"
  "calls (fst (add_new_params c ps s)) = calls s"
  by (simp_all add: add_new_params_def Let_def split: prod.splits)

lemma subscribe_frame [simp]:
  "running (subscribe E c ps h s) = running s"
  "reconnect_attempts (subscribe E c ps h s) = reconnect_attempts s"
  "max_reconnect_attempts (subscribe E c ps h s) = max_reconnect_attempts s"
  "opens (subscribe E c ps h s) = opens s"
  "ws (subscribe E c ps h s) = ws s"
  "is_connected (subscribe E c ps h s) = is_connected s"
  "is_authenticated (subscribe E c ps h s) = is_authenticated s"
  "ws_thread (subscribe E c ps h s) = ws_thread s"
  "sleepers (subscribe E c ps h s) = sleepers s"
  "calls (subscribe E c ps h s) = calls s"
proof -
  obtain s4 new where a: "add_new_params c ps (add_handler c h s) = (s4, new)"
    by (cases "add_new_params c ps (add_handler c h s)")
  then have "s4 = fst (add_new_params c ps (add_handler c h s))" by simp
  then have b:
    "running s4 = running s"
    "reconnect_attempts s4 = reconnect_attempts s"
    "max_reconnect_attempts s4 = max_reconnect_attempts s"
    "opens s4 = opens s"
    "ws s4 = ws s"
    "is_connected s4 = is_connected s"
    "is_authenticated s4 = is_authenticated s"
    "ws_thread s4 = ws_thread s"
    "sleepers s4 = sleepers s"
    "calls s4 = calls s"
    by simp_all
  show
    "running (subscribe E c ps h s) = running s"
    "reconnect_attempts (subscribe E c ps h s) = reconnect_attempts s"
    "max_reconnect_attempts (subscribe E c ps h s) = max_reconnect_attempts s"
    "opens (subscribe E c ps h s) = opens s"
    "ws (subscribe E c ps h s) = ws s"
    "is_connected (subscribe E c ps h s) = is_connected s"
    "is_authenticated (subscribe E c ps h s) = is_authenticated s"
    "ws_thread (subscribe E c ps h s) = ws_thread s"
    "sleepers (subscribe E c ps h s) = sleepers s"
    "calls (subscribe E c ps h s) = calls s"
    using a b by (simp_all add: subscribe_def)
qed

lemma store_remaining_frame [simp]:
  "running (store_remaining c r s) = running s"
  "reconnect_attempts (store_remaining c r s) = reconnect_attempts s"
  "max_reconnect_attempts (store_remaining c r s) = max_reconnect_attempts s"
  "opens (store_remaining c r s) = opens s"
  "ws (store_remaining c r s) = ws s"
  "is_connected (store_remaining c r s) = is_connected s"
  "is_authenticated (store_remaining c r s) = is_authenticated s"
  "ws_thread (store_remaining c r s) = ws_thread s"
  "sleepers (store_remaining c r s) = sleepers s"
  "handlers (store_remaining c r s) = handlers s"
  "sends (store_remaining c r s) = sends s"
  "calls (store_remaining c r s) = calls s"
  by (simp_all add: store_remaining_def)

lemma send_unsubscribe_frame [simp]:
  "running (send_unsubscribe E c u s) = running s"
  "reconnect_attempts (send_unsubscribe E c u s) = reconnect_attempts s"
  "max_reconnect_attempts (send_unsubscribe E c u s) = max_reconnect_attempts s"
  "opens (send_unsubscribe E c u s) = opens s"
  "ws (send_unsubscribe E c u s) = ws s"
  "is_connected (send_unsubscribe E c u s) = is_connected s"
  "is_authenticated (send_unsubscribe E c u s) = is_authenticated s"
  "ws_thread (send_unsubscribe E c u s) = ws_thread s"
  "sleepers (send_unsubscribe E c u s) = sleepers s"
  "handlers (send_unsubscribe E c u s) = handlers s"
  "subscribed_channels (send_unsubscribe E c u s) = subscribed_channels s"
  "calls (send_unsubscribe E c u s) = calls s"
  by (simp_all add: send_unsubscribe_def)

lemma remove_handlers_frame [simp]:
  "running (remove_handlers E c h r s) = running s"
  "reconnect_attempts (remove_handlers E c h r s) = reconnect_attempts s"
  "max_reconnect_attempts (remove_handlers E c h r s) = max_reconnect_attempts s"
  "opens (remove_handlers E c h r s) = opens s"
  "ws (remove_handlers E c h r s) = ws s"
  "is_connected (remove_handlers E c h r s) = is_connected s"
  "is_authenticated (remove_handlers E c h r s) = is_authenticated s"
  "ws_thread (remove_handlers E c h r s) = ws_thread s"
  "sleepers (remove_handlers E c h r s) = sleepers s"
  "subscribed_channels (remove_handlers E c h r s) = subscribed_channels s"
  "sends (remove_handlers E c h r s) = sends s"
  "calls (remove_handlers E c h r s) = calls s"
  by (simp_all add: remove_handlers_def split: option.splits)

lemma unsubscribe_frame [simp]:
  "running (unsubscribe E c ps h s) = running s"
  "reconnect_attempts (unsubscribe E c ps h s) = reconnect_attempts s"
  "max_reconnect_attempts (unsubscribe E c ps h s) = max_reconnect_attempts s"
  "opens (unsubscribe E c ps h s) = opens s"
  "ws (unsubscribe E c ps h s) = ws s"
  "is_connected (unsubscribe E c ps h s) = is_connected s"
  "is_authenticated (unsubscribe E c ps h s) = is_authenticated s"
  "ws_thread (unsubscribe E c ps h s) = ws_thread s"
  "sleepers (unsubscribe E c ps h s) = sleepers s"
  "calls (unsubscribe E c ps h s) = calls s"
  by (simp_all add: unsubscribe_def split: prod.splits)

lemma client_call_step_frame [simp]:
  "running (client_call_step E c s) = running s"
  "reconnect_attempts (client_call_step E c s) = reconnect_attempts s"
  "max_reconnect_attempts (client_call_step E c s) = max_reconnect_attempts s"
  "opens (client_call_step E c s) = opens s"
  "ws (client_call_step E c s) = ws s"
  "is_connected (client_call_step E c s) = is_connected s"
  "is_authenticated (client_call_step E c s) = is_authenticated s"
  "ws_thread (client_call_step E c s) = ws_thread s"
  "sleepers (client_call_step E c s) = sleepers s"
  "calls (client_call_step E c s) = calls s"
  by (cases c; simp)+

text \<open>
  What holds before the handler loop and is kept by every call a handler makes on the
  client, by the record of a call, by a log record and by the count of uncaught exceptions,
  holds after the loop.
\<close>

lemma run_calls_invariant:
  assumes "P s" and "\<And>c t. P t \<Longrightarrow> P (client_call_step E c t)"
  shows "P (snd (snd (run_calls E ch cs w a s)))"
  using assms(1)
  by (induction cs arbitrary: w a s) (simp_all add: Let_def assms(2))

lemma call_handlers_invariant:
  assumes "P s"
    and "\<And>c t. P t \<Longrightarrow> P (client_call_step E c t)"
    and "\<And>t x. P t \<Longrightarrow> P (t\<lparr>calls := x\<rparr>)"
    and "\<And>t lv m. P t \<Longrightarrow> P (logger lv m t)"
    and "\<And>t n. P t \<Longrightarrow> P (t\<lparr>uncaught := n\<rparr>)"
  shows "P (call_handlers E ch d i w a s)"
  using assms
proof (induction E ch d i w a s rule: call_handlers.induct)
  case (1 E ch d i w a s)
  note step = "1.prems"(2) and upd = "1.prems"(3) and lg = "1.prems"(4) and unc = "1.prems"(5)
  show ?case
  proof (cases "i < length w")
    case False
    then show ?thesis using "1.prems"(1) by (simp add: call_handlers.simps)
  next
    case True
    obtain out w' a' s' where c: "call_handler E ch d (w ! i) w a s = (out, w', a', s')"
      by (cases "call_handler E ch d (w ! i) w a s") auto
    have e: "s' = snd (snd (run_calls E ch (fst (behaviour E (length (calls s)))) w a
                    (s\<lparr>calls := calls s @ [(w ! i, d)]\<rparr>)))"
      using c by (simp add: call_handler_def)
    have p: "P s'"
      unfolding e
    proof (rule run_calls_invariant)
      show "P (s\<lparr>calls := calls s @ [(w ! i, d)]\<rparr>)"
        using "1.prems"(1) by (rule upd)
      show "P (client_call_step E c t)" if "P t" for c t
        using that by (rule step)
    qed
    show ?thesis
    proof (cases out)
      case Returns
      have "P (call_handlers E ch d (i + 1) w' a' s')"
        using True c Returns p step upd lg unc
        by (intro "1.IH"(1) [OF True c [symmetric] _ refl refl]) auto
      then show ?thesis
        using True c Returns by (simp add: call_handlers.simps [of E ch d i w a s])
    next
      case RaisesException
      have "P (call_handlers E ch d (i + 1) w' a' (logger ERROR ''Error in handler for channel'' s'))"
        using True c RaisesException p step upd lg unc
        by (intro "1.IH"(2) [OF True c [symmetric] _ refl refl]) auto
      then show ?thesis
        using True c RaisesException by (simp add: call_handlers.simps [of E ch d i w a s])
    next
      case RaisesBaseException
      then show ?thesis
        using True c p unc
        by (simp add: call_handlers.simps [of E ch d i w a s])
    qed
  qed
qed


lemma call_handlers_frame [simp]:
  "running (call_handlers E ch d i w a s) = running s"
  "reconnect_attempts (call_handlers E ch d i w a s) = reconnect_attempts s"
  "max_reconnect_attempts (call_handlers E ch d i w a s) = max_reconnect_attempts s"
  "opens (call_handlers E ch d i w a s) = opens s"
  "ws (call_handlers E ch d i w a s) = ws s"
  "is_connected (call_handlers E ch d i w a s) = is_connected s"
  "is_authenticated (call_handlers E ch d i w a s) = is_authenticated s"
  "ws_thread (call_handlers E ch d i w a s) = ws_thread s"
  "sleepers (call_handlers E ch d i w a s) = sleepers s"
proof -
  show "running (call_handlers E ch d i w a s) = running s"
    by (rule call_handlers_invariant [where P = "\<lambda>t. running t = running s"]) simp_all
  show "reconnect_attempts (call_handlers E ch d i w a s) = reconnect_attempts s"
    by (rule call_handlers_invariant [where P = "\<lambda>t. reconnect_attempts t = reconnect_attempts s"]) simp_all
  show "max_reconnect_attempts (call_handlers E ch d i w a s) = max_reconnect_attempts s"
    by (rule call_handlers_invariant [where P = "\<lambda>t. max_reconnect_attempts t = max_reconnect_attempts s"]) simp_all
  show "opens (call_handlers E ch d i w a s) = opens s"
    by (rule call_handlers_invariant [where P = "\<lambda>t. opens t = opens s"]) simp_all
  show "ws (call_handlers E ch d i w a s) = ws s"
    by (rule call_handlers_invariant [where P = "\<lambda>t. ws t = ws s"]) simp_all
  show "is_connected (call_handlers E ch d i w a s) = is_connected s"
    by (rule call_handlers_invariant [where P = "\<lambda>t. is_connected t = is_connected s"]) simp_all
  show "is_authenticated (call_handlers E ch d i w a s) = is_authenticated s"
    by (rule call_handlers_invariant [where P = "\<lambda>t. is_authenticated t = is_authenticated s"]) simp_all
  show "ws_thread (call_handlers E ch d i w a s) = ws_thread s"
    by (rule call_handlers_invariant [where P = "\<lambda>t. ws_thread t = ws_thread s"]) simp_all
  show "sleepers (call_handlers E ch d i w a s) = sleepers s"
    by (rule call_handlers_invariant [where P = "\<lambda>t. sleepers t = sleepers s"]) simp_all
qed

lemma dispatch_frame [simp]:
  "running (dispatch E c d s) = running s"
  "reconnect_attempts (dispatch E c d s) = reconnect_attempts s"
  "max_reconnect_attempts (dispatch E c d s) = max_reconnect_attempts s"
  "opens (dispatch E c d s) = opens s"
  "ws (dispatch E c d s) = ws s"
  "is_connected (dispatch E c d s) = is_connected s"
  "is_authenticated (dispatch E c d s) = is_authenticated s"
  "ws_thread (dispatch E c d s) = ws_thread s"
  "sleepers (dispatch E c d s) = sleepers s"
  by (cases c; simp add: dispatch_def split: option.splits)+

text \<open>
  What holds before the message callback and is kept by a log record, by the authenticated
  flag, by the replay and by the dispatch, holds after the callback.
\<close>

lemma on_message_invariant:
  assumes "P s"
    and lg: "\<And>t lv msg. P t \<Longrightarrow> P (logger lv msg t)"
    and au: "\<And>t b. P t \<Longrightarrow> P (t\<lparr>is_authenticated := b\<rparr>)"
    and rs: "\<And>t. P t \<Longrightarrow> P (resubscribe_channels E t)"
    and dp: "\<And>t c d. reaches_handlers m \<Longrightarrow> P t \<Longrightarrow> P (dispatch E c d t)"
  shows "P (on_message E m s)"
proof (cases m)
  case JSONDecodeError
  then show ?thesis using assms(1) by (simp add: on_message_def lg)
next
  case (Loaded data)
  let ?s0 = "logger DEBUG ''Received message'' s"
  let ?pong = "is_dict data \<and> dict_get ''op'' data = Some (JStr ''pong'')"
  let ?auth = "is_dict data \<and> dict_get ''op'' data = Some (JStr ''auth'')"
  let ?data = "is_dict data \<and> dict_get ''channel'' data \<noteq> None \<and> dict_get ''data'' data \<noteq> None"
  let ?err = "is_dict data \<and> dict_get ''event'' data = Some (JStr ''error'')"
  have p0: "P ?s0" using assms(1) by (rule lg)
  consider (pong) "?pong" | (auth) "\<not> ?pong" "?auth" | (data) "\<not> ?pong" "\<not> ?auth" "?data"
    | (err) "\<not> ?pong" "\<not> ?auth" "\<not> ?data" "?err"
    | (other) "\<not> ?pong" "\<not> ?auth" "\<not> ?data" "\<not> ?err"
    by blast
  then show ?thesis
  proof cases
    case pong
    then have "on_message E m s = logger DEBUG ''Received pong'' ?s0"
      unfolding Loaded on_message_def Let_def by simp
    then show ?thesis using p0 by (simp add: lg)
  next
    case auth
    let ?succ = "case dict_get ''success'' data of None \<Rightarrow> JBool False | Some v \<Rightarrow> v"
    have e: "on_message E m s =
          (if truthy ?succ then
             resubscribe_channels E (logger INFO ''Authentication successful''
               (?s0\<lparr>is_authenticated := truthy ?succ\<rparr>))
           else logger ERROR ''Authentication failed'' (?s0\<lparr>is_authenticated := truthy ?succ\<rparr>))"
      using auth unfolding Loaded on_message_def Let_def by simp
    show ?thesis
      unfolding e using p0 by (simp add: lg au rs)
  next
    case data
    then obtain c d where cd: "dict_get ''channel'' data = Some c" "dict_get ''data'' data = Some d"
      by auto
    have "on_message E m s = dispatch E c d ?s0"
      using data cd unfolding Loaded on_message_def Let_def by simp
    moreover have "reaches_handlers m"
      using data by (simp add: Loaded)
    ultimately show ?thesis using p0 by (simp add: dp)
  next
    case err
    then have "on_message E m s = logger ERROR ''Received error message from server'' ?s0"
      unfolding Loaded on_message_def Let_def by auto
    then show ?thesis using p0 by (simp add: lg)
  next
    case other
    then have "on_message E m s = ?s0"
      unfolding Loaded on_message_def Let_def by auto
    then show ?thesis using p0 by simp
  qed
qed


lemma on_message_frame [simp]:
  "running (on_message E m s) = running s"
  "reconnect_attempts (on_message E m s) = reconnect_attempts s"
  "max_reconnect_attempts (on_message E m s) = max_reconnect_attempts s"
  "opens (on_message E m s) = opens s"
  "ws (on_message E m s) = ws s"
  "is_connected (on_message E m s) = is_connected s"
  "ws_thread (on_message E m s) = ws_thread s"
  "sleepers (on_message E m s) = sleepers s"
proof -
  show "running (on_message E m s) = running s"
    by (rule on_message_invariant [where P = "\<lambda>t. running t = running s"]) simp_all
  show "reconnect_attempts (on_message E m s) = reconnect_attempts s"
    by (rule on_message_invariant [where P = "\<lambda>t. reconnect_attempts t = reconnect_attempts s"]) simp_all
  show "max_reconnect_attempts (on_message E m s) = max_reconnect_attempts s"
    by (rule on_message_invariant [where P = "\<lambda>t. max_reconnect_attempts t = max_reconnect_attempts s"]) simp_all
  show "opens (on_message E m s) = opens s"
    by (rule on_message_invariant [where P = "\<lambda>t. opens t = opens s"]) simp_all
  show "ws (on_message E m s) = ws s"
    by (rule on_message_invariant [where P = "\<lambda>t. ws t = ws s"]) simp_all
  show "is_connected (on_message E m s) = is_connected s"
    by (rule on_message_invariant [where P = "\<lambda>t. is_connected t = is_connected s"]) simp_all
  show "ws_thread (on_message E m s) = ws_thread s"
    by (rule on_message_invariant [where P = "\<lambda>t. ws_thread t = ws_thread s"]) simp_all
  show "sleepers (on_message E m s) = sleepers s"
    by (rule on_message_invariant [where P = "\<lambda>t. sleepers t = sleepers s"]) simp_all
qed

section \<open>The attempt counter\<close>

lemma step_counter:
  assumes "int (reconnect_attempts s) \<le> max_reconnect_attempts s"
  shows "int (reconnect_attempts (step E e s)) \<le> max_reconnect_attempts (step E e s)"
  using assms
  by (cases e)
     (auto simp: connect_def disconnect_def on_open_def on_error_def on_close_def
       on_close_pre_def attempt_reconnect_pre_def attempt_reconnect_post_def
       start_ws_thread_def ws_close_def sleep_def Let_def split: option.splits)

lemma step_max: "max_reconnect_attempts (step E e s) = max_reconnect_attempts s"
  by (cases e)
     (auto simp: connect_def disconnect_def on_open_def on_error_def on_close_def
       on_close_pre_def attempt_reconnect_pre_def attempt_reconnect_post_def
       start_ws_thread_def ws_close_def sleep_def Let_def split: option.splits)

lemma run_max: "max_reconnect_attempts (run E evs s) = max_reconnect_attempts s"
  by (induction evs arbitrary: s) (simp_all add: step_max)

lemma run_counter:
  assumes "int (reconnect_attempts s) \<le> max_reconnect_attempts s"
  shows "int (reconnect_attempts (run E evs s)) \<le> max_reconnect_attempts (run E evs s)"
  using assms by (induction evs arbitrary: s) (simp_all add: step_counter)

text \<open>
  Two facts about the counter hold in every interleaving: in every run from the
  constructor the counter is at most the maximum, and the open callback sets it to 0.
\<close>

lemma counter_bounded:
  "int (reconnect_attempts (run E evs (init key dbg)))
     \<le> max_reconnect_attempts (run E evs (init key dbg))"
  by (rule run_counter) (simp add: init_def)

lemma counter_reset_on_open: "reconnect_attempts (on_open E s) = 0"
  by (simp add: on_open_def Let_def)

lemma on_close_exhausted:
  assumes "running s" and "max_reconnect_attempts s \<le> int (reconnect_attempts s)"
  shows "\<not> running (on_close E s)" "opens (on_close E s) = opens s"
    "reconnect_attempts (on_close E s) = reconnect_attempts s"
    "sleepers (on_close E s) = sleepers s" "ws (on_close E s) = ws s"
    "ws_thread (on_close E s) = ws_thread s"
  using assms by (simp_all add: on_close_def on_close_pre_def attempt_reconnect_pre_def)

text \<open>
  Claim C5 says that once the counter has reached the maximum at an unexpected close, no
  connection is opened until the application calls \<^verbatim>\<open>connect()\<close>. The close callback
  itself does what the claim says: on a running client whose counter has reached the maximum
  it clears \<^verbatim>\<open>running\<close> and creates no \<^verbatim>\<open>WebSocketApp\<close>. But \<^verbatim>\<open>_attempt_reconnect\<close>
  reads \<^verbatim>\<open>running\<close> before its sleep only. When another thread is asleep in
  \<^verbatim>\<open>_attempt_reconnect\<close> at that moment, then after the close callback and the end of its
  thread the sleeper wakes up and creates a new \<^verbatim>\<open>WebSocketApp\<close>, with \<^verbatim>\<open>running\<close> false
  and without any \<^verbatim>\<open>connect()\<close>.
\<close>

theorem reopen_after_attempts_exhausted:
  assumes "running s" and "max_reconnect_attempts s \<le> int (reconnect_attempts s)"
    and "0 < sleepers s"
  shows "\<not> running (step E OnClose s) \<and> opens (step E OnClose s) = opens s
       \<and> Connect \<notin> set [OnClose, ThreadExit, WakeUp]
       \<and> \<not> running (run E [OnClose, ThreadExit, WakeUp] s)
       \<and> opens (run E [OnClose, ThreadExit, WakeUp] s) = opens s + 1"
  using assms on_close_exhausted [OF assms(1,2), of E]
  by (auto simp: attempt_reconnect_post_def start_ws_thread_def ws_close_def Let_def
      split: option.splits)

theorem reopen_after_attempts_exhausted_witness:
  "running exhausted_client
   \<and> max_reconnect_attempts exhausted_client \<le> int (reconnect_attempts exhausted_client)
   \<and> 0 < sleepers exhausted_client
   \<and> reconnect_attempts exhausted_client = 5
   \<and> sleeps exhausted_client = [5, 10, 20, 40, 80]
   \<and> opens exhausted_client = 6
   \<and> \<not> running (run slow_join [OnClose, ThreadExit, WakeUp] exhausted_client)
   \<and> opens (run slow_join [OnClose, ThreadExit, WakeUp] exhausted_client) = 7"
proof -
  have h: "running exhausted_client"
      "max_reconnect_attempts exhausted_client \<le> int (reconnect_attempts exhausted_client)"
      "0 < sleepers exhausted_client"
    by code_simp+
  have v: "reconnect_attempts exhausted_client = 5"
      "sleeps exhausted_client = [5, 10, 20, 40, 80]" "opens exhausted_client = 6"
    by code_simp+
  from reopen_after_attempts_exhausted [OF h, of slow_join]
  have "\<not> running (run slow_join [OnClose, ThreadExit, WakeUp] exhausted_client)"
    and "opens (run slow_join [OnClose, ThreadExit, WakeUp] exhausted_client)
           = opens exhausted_client + 1"
    by blast+
  with h v show ?thesis by simp
qed

section \<open>Replay and dispatch\<close>

lemma resubscribe_items_sends:
  assumes "ws s \<noteq> None" and "is_connected s"
  shows "sends (resubscribe_items E items s)
           = sends s @ map (\<lambda>(channel, params). sub_message channel params)
                         (filter (\<lambda>(channel, params). params \<noteq> []) items)"
  using assms
  by (induction E items s rule: resubscribe_items.induct) (simp_all add: send_message_sends)

lemma on_message_auth_success:
  assumes "dict_get ''op'' (JObj kvs) = Some (JStr ''auth'')"
    and "dict_get ''success'' (JObj kvs) = Some v" and "truthy v"
  shows "on_message E (Loaded (JObj kvs)) s
           = resubscribe_channels E (logger INFO ''Authentication successful''
               ((logger DEBUG ''Received message'' s)\<lparr>is_authenticated := True\<rparr>))"
  using assms by (simp add: on_message_def Let_def)

lemma send_ping_registry [simp]:
  "subscribed_channels (snd (send_ping E n s)) = subscribed_channels s"
  "handlers (snd (send_ping E n s)) = handlers s"
  by (induction n arbitrary: s; simp add: send_ping_body_def sleep_def)+

lemma on_message_registry:
  assumes "\<not> reaches_handlers m"
  shows "subscribed_channels (on_message E m s) = subscribed_channels s
       \<and> handlers (on_message E m s) = handlers s"
  by (rule on_message_invariant
        [where P = "\<lambda>t. subscribed_channels t = subscribed_channels s \<and> handlers t = handlers s"])
     (use assms in simp_all)

lemma step_registry:
  assumes "\<not> changes_registry e"
  shows "subscribed_channels (step E e s) = subscribed_channels s
       \<and> handlers (step E e s) = handlers s"
  using assms
  by (cases e)
     (auto simp: on_message_registry connect_def disconnect_def on_open_def on_error_def
       on_close_def on_close_pre_def attempt_reconnect_pre_def attempt_reconnect_post_def
       start_ws_thread_def ws_close_def sleep_def Let_def split: option.splits)

lemma run_registry:
  assumes "\<forall>e \<in> set evs. \<not> changes_registry e"
  shows "subscribed_channels (run E evs s) = subscribed_channels s
       \<and> handlers (run E evs s) = handlers s"
  using assms by (induction evs arbitrary: s) (simp_all add: step_registry)

text \<open>
  Claim C2. On a connected client with a socket, a decoded auth message whose \<^verbatim>\<open>success\<close>
  is true hands to \<^verbatim>\<open>ws.send\<close>, after what was sent before, exactly one subscribe
  message for each channel of the registry with a non-empty parameter list, in the order
  of the registry; the \<^verbatim>\<open>args\<close> of the message are the strings \<^verbatim>\<open>channel:param\<close> for all
  parameters of the channel in their order. The message leaves both registries as they
  were and sets the authenticated flag. Both registries are also left as they were by
  every run of calls and callbacks without \<^verbatim>\<open>subscribe\<close> and \<^verbatim>\<open>unsubscribe\<close>, a close
  and a new open among them.
\<close>

theorem replay_after_auth_success:
  assumes "is_connected s" and "ws s \<noteq> None"
    and "dict_get ''op'' (JObj kvs) = Some (JStr ''auth'')"
    and "dict_get ''success'' (JObj kvs) = Some v" and "truthy v"
  shows "sends (on_message E (Loaded (JObj kvs)) s)
           = sends s @ map (\<lambda>(channel, params).
                              JObj [(''op'', JStr ''subscribe''),
                                    (''args'', JArr (map (\<lambda>param. JStr (channel @ '':'' @ param))
                                                      params))])
                         (filter (\<lambda>(channel, params). params \<noteq> []) (subscribed_channels s))
       \<and> subscribed_channels (on_message E (Loaded (JObj kvs)) s) = subscribed_channels s
       \<and> handlers (on_message E (Loaded (JObj kvs)) s) = handlers s
       \<and> is_authenticated (on_message E (Loaded (JObj kvs)) s)
       \<and> ((\<forall>e \<in> set evs. \<not> changes_registry e) \<longrightarrow>
            subscribed_channels (run E evs s) = subscribed_channels s
            \<and> handlers (run E evs s) = handlers s)"
proof -
  let ?s1 = "logger INFO ''Authentication successful''
               ((logger DEBUG ''Received message'' s)\<lparr>is_authenticated := True\<rparr>)"
  let ?s2 = "logger INFO ''Resubscribing to channels...'' ?s1"
  have m: "on_message E (Loaded (JObj kvs)) s = resubscribe_items E (subscribed_channels s) ?s2"
    using assms by (simp add: on_message_auth_success resubscribe_channels_def)
  have "sends (resubscribe_items E (subscribed_channels s) ?s2)
          = sends ?s2 @ map (\<lambda>(channel, params). sub_message channel params)
                          (filter (\<lambda>(channel, params). params \<noteq> []) (subscribed_channels s))"
    using assms by (intro resubscribe_items_sends) simp_all
  then have a: "sends (on_message E (Loaded (JObj kvs)) s)
          = sends s @ map (\<lambda>(channel, params). sub_message channel params)
                          (filter (\<lambda>(channel, params). params \<noteq> []) (subscribed_channels s))"
    using m by simp
  have b: "is_authenticated (on_message E (Loaded (JObj kvs)) s)"
    using m by simp
  have r: "subscribed_channels (on_message E (Loaded (JObj kvs)) s) = subscribed_channels s"
      "handlers (on_message E (Loaded (JObj kvs)) s) = handlers s"
    using m by simp_all
  show ?thesis
    using a b r run_registry [of evs E s]
    by (simp add: sub_message_def channel_args_def)
qed

theorem replay_after_auth_success_witness:
  "is_connected reconnected_client \<and> ws reconnected_client \<noteq> None
   \<and> dict_get ''op'' (JObj auth_ok_reply) = Some (JStr ''auth'')
   \<and> dict_get ''success'' (JObj auth_ok_reply) = Some (JBool True) \<and> truthy (JBool True)
   \<and> subscribed_channels reconnected_client = [(''liquidation'', [''BTC'', ''ETH''])]
   \<and> \<not> changes_registry ThreadExit \<and> \<not> changes_registry OnClose
   \<and> \<not> changes_registry OnOpen
   \<and> subscribed_channels (run quiet [ThreadExit, OnClose, OnOpen] reconnected_client)
       = [(''liquidation'', [''BTC'', ''ETH''])]
   \<and> sends (on_message quiet (Loaded (JObj auth_ok_reply)) reconnected_client)
       = sends reconnected_client
         @ [JObj [(''op'', JStr ''subscribe''),
                  (''args'', JArr [JStr ''liquidation:BTC'', JStr ''liquidation:ETH''])]]"
proof -
  have h: "is_connected reconnected_client" "ws reconnected_client \<noteq> None"
    by code_simp+
  have k: "dict_get ''op'' (JObj auth_ok_reply) = Some (JStr ''auth'')"
      "dict_get ''success'' (JObj auth_ok_reply) = Some (JBool True)" "truthy (JBool True)"
    by (simp_all add: auth_ok_reply_def)
  have r: "subscribed_channels reconnected_client = [(''liquidation'', [''BTC'', ''ETH''])]"
    by code_simp
  have e: "\<forall>e \<in> set [ThreadExit, OnClose, OnOpen]. \<not> changes_registry e"
    by simp
  from replay_after_auth_success [OF h k, of quiet "[ThreadExit, OnClose, OnOpen]"] e
  have "subscribed_channels (run quiet [ThreadExit, OnClose, OnOpen] reconnected_client)
          = subscribed_channels reconnected_client"
    and "sends (on_message quiet (Loaded (JObj auth_ok_reply)) reconnected_client)
          = sends reconnected_client
            @ map (\<lambda>(channel, params).
                     JObj [(''op'', JStr ''subscribe''),
                           (''args'', JArr (map (\<lambda>param. JStr (channel @ '':'' @ param))
                                             params))])
                (filter (\<lambda>(channel, params). params \<noteq> [])
                   (subscribed_channels reconnected_client))"
    by blast+
  with h k r e show ?thesis by simp
qed



lemma handler_errors_logger:
  "handler_errors (logger lv m s)
     = handler_errors s + (if (lv, m) = (ERROR, ''Error in handler for channel'') then 1 else 0)"
  by (simp add: handler_errors_def logger_def)

lemma handler_errors_update [simp]:
  "handler_errors (s\<lparr>calls := x\<rparr>) = handler_errors s"
  "handler_errors (s\<lparr>handlers := y\<rparr>) = handler_errors s"
  "handler_errors (s\<lparr>subscribed_channels := z\<rparr>) = handler_errors s"
  "handler_errors (s\<lparr>sends := u\<rparr>) = handler_errors s"
  by (simp_all add: handler_errors_def)

lemma handler_errors_send_message [simp]:
  "handler_errors (send_message E m s) = handler_errors s"
  by (simp add: send_message_def Let_def handler_errors_logger)

lemma handler_errors_add_handler [simp]:
  "handler_errors (add_handler c h s) = handler_errors s"
  by (simp add: add_handler_def Let_def handler_errors_logger)

lemma handler_errors_add_new_params [simp]:
  "handler_errors (fst (add_new_params c ps s)) = handler_errors s"
  by (simp add: add_new_params_def Let_def split: prod.splits)

lemma handler_errors_subscribe [simp]:
  "handler_errors (subscribe E c ps h s) = handler_errors s"
proof -
  obtain s4 new where a: "add_new_params c ps (add_handler c h s) = (s4, new)"
    by (cases "add_new_params c ps (add_handler c h s)")
  then have "s4 = fst (add_new_params c ps (add_handler c h s))" by simp
  then have "handler_errors s4 = handler_errors s" by simp
  then show ?thesis
    using a by (simp add: subscribe_def handler_errors_logger)
qed

lemma handler_errors_unsubscribe [simp]:
  "handler_errors (unsubscribe E c ps h s) = handler_errors s"
proof -
  have 1: "handler_errors (store_remaining c r t) = handler_errors t" for r t
    by (simp add: store_remaining_def)
  have 2: "handler_errors (send_unsubscribe E c u t) = handler_errors t" for u t
    by (simp add: send_unsubscribe_def handler_errors_logger)
  have 3: "handler_errors (remove_handlers E c h r t) = handler_errors t" for r t
    by (simp add: remove_handlers_def handler_errors_logger split: option.splits)
  show ?thesis
    by (simp add: unsubscribe_def 1 2 3 handler_errors_logger split: prod.splits)
qed



lemma handler_errors_client_call_step [simp]:
  "handler_errors (client_call_step E a s) = handler_errors s"
  by (cases a) simp_all










section \<open>Subscribing\<close>

lemma add_params_present:
  "set ps \<subseteq> set registered \<Longrightarrow> add_params ps registered new = (registered, new)"
  by (induction ps) simp_all

lemma add_params_covers:
  "set registered \<union> set ps \<subseteq> set (fst (add_params ps registered new))"
  by (induction ps registered new rule: add_params.induct) auto

lemma add_handler_present:
  assumes "h \<in> set (dict_list c (handlers s))"
  shows "add_handler c h s = s"
proof -
  have "dict_in c (handlers s)"
    using assms by (auto intro: dict_in_nonempty)
  with assms show ?thesis by (simp add: add_handler_def)
qed

lemma add_handler_new:
  assumes "h \<notin> set (dict_list c (handlers s))"
  shows "add_handler c h s
           = logger INFO ''Handler added for channel''
               (s\<lparr>handlers := dict_set c (dict_list c (handlers s) @ [h]) (handlers s)\<rparr>)"
  using assms by (simp add: add_handler_def dict_list_absent)

lemma add_handler_result: "h \<in> set (dict_list c (handlers (add_handler c h s)))"
  by (cases "h \<in> set (dict_list c (handlers s))")
     (simp_all add: add_handler_present add_handler_new)

lemma add_new_params_present:
  assumes "ps \<noteq> []" and "set ps \<subseteq> set (dict_list c (subscribed_channels s))"
  shows "add_new_params c ps s = (s, [])"
proof -
  have "dict_in c (subscribed_channels s)"
    using assms by (auto intro: dict_in_nonempty)
  with assms show ?thesis
    by (simp add: add_new_params_def add_params_present dict_set_dict_list)
qed

lemma add_new_params_result:
  "set ps \<subseteq> set (dict_list c (subscribed_channels (fst (add_new_params c ps s))))"
proof -
  define s1 where "s1 = (if \<not> dict_in c (subscribed_channels s) then
                  s\<lparr>subscribed_channels := dict_set c [] (subscribed_channels s)\<rparr>
                else s)"
  obtain reg new where a: "add_params ps (dict_list c (subscribed_channels s1)) [] = (reg, new)"
    by (cases "add_params ps (dict_list c (subscribed_channels s1)) []")
  have "set ps \<subseteq> set reg"
    using add_params_covers [of "dict_list c (subscribed_channels s1)" ps "[]"] a by simp
  moreover have "fst (add_new_params c ps s)
                   = s1\<lparr>subscribed_channels := dict_set c reg (subscribed_channels s1)\<rparr>"
    using a by (simp add: add_new_params_def s1_def)
  ultimately show ?thesis by simp
qed

lemma subscribe_present:
  assumes "c \<noteq> []" and "ps \<noteq> []"
    and "set ps \<subseteq> set (dict_list c (subscribed_channels s))"
    and "h \<in> set (dict_list c (handlers s))"
  shows "subscribe E c ps h s = logger INFO ''Already subscribed to channel with params'' s"
  using assms by (simp add: subscribe_def add_handler_present add_new_params_present)

lemma subscribe_result:
  assumes "c \<noteq> []" and "ps \<noteq> []"
  shows "set ps \<subseteq> set (dict_list c (subscribed_channels (subscribe E c ps h s)))"
    and "h \<in> set (dict_list c (handlers (subscribe E c ps h s)))"
    and "length (sends (subscribe E c ps h s)) \<le> length (sends s) + 1"
proof -
  obtain s4 new where a: "add_new_params c ps (add_handler c h s) = (s4, new)"
    by (cases "add_new_params c ps (add_handler c h s)")
  then have s4: "s4 = fst (add_new_params c ps (add_handler c h s))" by simp
  have r: "set ps \<subseteq> set (dict_list c (subscribed_channels s4))"
    unfolding s4 by (rule add_new_params_result)
  have hh: "h \<in> set (dict_list c (handlers s4))"
    unfolding s4 by (simp add: add_handler_result)
  have sd: "sends s4 = sends s"
    unfolding s4 by simp
  show "set ps \<subseteq> set (dict_list c (subscribed_channels (subscribe E c ps h s)))"
    using assms a r by (simp add: subscribe_def)
  show "h \<in> set (dict_list c (handlers (subscribe E c ps h s)))"
    using assms a hh by (simp add: subscribe_def)
  show "length (sends (subscribe E c ps h s)) \<le> length (sends s) + 1"
    using assms a sd by (simp add: subscribe_def send_message_sends)
qed

text \<open>
  Claim C3. For a non-empty channel and a non-empty parameter list, a second
  \<^verbatim>\<open>subscribe\<close> with the same arguments hands nothing to \<^verbatim>\<open>ws.send\<close> and leaves the
  subscription registry and the handler registry as the first call left them; the two
  calls together hand at most one message to \<^verbatim>\<open>ws.send\<close>.
\<close>

theorem subscribe_idempotent:
  assumes "channel \<noteq> []" and "params \<noteq> []"
  shows "sends (subscribe E channel params h (subscribe E channel params h s))
           = sends (subscribe E channel params h s)
       \<and> subscribed_channels (subscribe E channel params h (subscribe E channel params h s))
           = subscribed_channels (subscribe E channel params h s)
       \<and> handlers (subscribe E channel params h (subscribe E channel params h s))
           = handlers (subscribe E channel params h s)
       \<and> length (sends (subscribe E channel params h (subscribe E channel params h s)))
           \<le> length (sends s) + 1"
proof -
  let ?s1 = "subscribe E channel params h s"
  have "subscribe E channel params h ?s1
          = logger INFO ''Already subscribed to channel with params'' ?s1"
    using assms subscribe_result(1,2) [OF assms, where E = E and h = h and s = s] by (intro subscribe_present)
  then show ?thesis
    using subscribe_result(3) [OF assms, where E = E and h = h and s = s] by simp
qed

theorem subscribe_idempotent_witness:
  "''liquidation'' \<noteq> [] \<and> [''BTC'', ''ETH''] \<noteq> []
   \<and> sends authenticated_client = [auth_message ''key'']
   \<and> sends (subscribe quiet ''liquidation'' [''BTC'', ''ETH''] 7
              (subscribe quiet ''liquidation'' [''BTC'', ''ETH''] 7 authenticated_client))
       = [auth_message ''key'', sub_message ''liquidation'' [''BTC'', ''ETH'']]
   \<and> subscribed_channels (subscribe quiet ''liquidation'' [''BTC'', ''ETH''] 7
              (subscribe quiet ''liquidation'' [''BTC'', ''ETH''] 7 authenticated_client))
       = [(''liquidation'', [''BTC'', ''ETH''])]
   \<and> handlers (subscribe quiet ''liquidation'' [''BTC'', ''ETH''] 7
              (subscribe quiet ''liquidation'' [''BTC'', ''ETH''] 7 authenticated_client))
       = [(''liquidation'', [7])]"
proof -
  have h: "''liquidation'' \<noteq> []" "[''BTC'', ''ETH''] \<noteq> []"
    by simp_all
  have v: "sends authenticated_client = [auth_message ''key'']"
      "sends (subscribe quiet ''liquidation'' [''BTC'', ''ETH''] 7 authenticated_client)
         = [auth_message ''key'', sub_message ''liquidation'' [''BTC'', ''ETH'']]"
      "subscribed_channels
         (subscribe quiet ''liquidation'' [''BTC'', ''ETH''] 7 authenticated_client)
         = [(''liquidation'', [''BTC'', ''ETH''])]"
      "handlers (subscribe quiet ''liquidation'' [''BTC'', ''ETH''] 7 authenticated_client)
         = [(''liquidation'', [7])]"
    by code_simp+
  from subscribe_idempotent [OF h, of quiet 7 authenticated_client] v h
  show ?thesis by simp
qed



section \<open>Unsubscribing\<close>

lemma take_params_remaining:
  "distinct remaining \<Longrightarrow>
     snd (take_params ps acc remaining) = filter (\<lambda>p. p \<notin> set ps) remaining"
proof (induction ps arbitrary: acc remaining)
  case Nil
  then show ?case by simp
next
  case (Cons p ps)
  show ?case
  proof (cases "p \<in> set remaining")
    case True
    have "remove1 p remaining = filter (\<lambda>q. q \<noteq> p) remaining"
      using Cons.prems by (simp add: distinct_remove1_removeAll removeAll_filter_not_eq) metis
    moreover have "distinct (remove1 p remaining)"
      using Cons.prems by simp
    ultimately show ?thesis
      using True Cons.IH [of "remove1 p remaining" "acc @ [p]"]
      by (simp add: conj_commute)
  next
    case False
    then have "filter (\<lambda>q. q \<noteq> p \<and> q \<notin> set ps) remaining = filter (\<lambda>q. q \<notin> set ps) remaining"
      by (intro filter_cong) auto
    with False Cons.IH [OF Cons.prems, of acc] show ?thesis by simp
  qed
qed

lemma take_params_taken:
  "distinct remaining \<Longrightarrow>
     set (fst (take_params ps acc remaining)) = set acc \<union> (set ps \<inter> set remaining)"
proof (induction ps arbitrary: acc remaining)
  case Nil
  then show ?case by simp
next
  case (Cons p ps)
  show ?case
  proof (cases "p \<in> set remaining")
    case True
    have "distinct (remove1 p remaining)"
      using Cons.prems by simp
    from Cons.IH [OF this, of "acc @ [p]"] True Cons.prems show ?thesis
      by auto
  next
    case False
    with Cons.IH [OF Cons.prems, of acc] show ?thesis by auto
  qed
qed

lemma unsubscribe_unfold:
  assumes "dict_in channel (subscribed_channels s)"
    and "distinct (dict_list channel (subscribed_channels s))"
    and "set params \<inter> set (dict_list channel (subscribed_channels s)) \<noteq> {}"
  shows "unsubscribe E channel params handler s
           = remove_handlers E channel handler
               (filter (\<lambda>p. p \<notin> set params) (dict_list channel (subscribed_channels s)))
               (send_unsubscribe E channel
                  (fst (take_params params [] (dict_list channel (subscribed_channels s))))
                  (store_remaining channel
                     (filter (\<lambda>p. p \<notin> set params) (dict_list channel (subscribed_channels s)))
                     s))"
proof -
  let ?reg = "dict_list channel (subscribed_channels s)"
  obtain u r where a: "take_params params [] ?reg = (u, r)"
    by (cases "take_params params [] ?reg")
  have r: "r = filter (\<lambda>p. p \<notin> set params) ?reg"
    using take_params_remaining [OF assms(2), of params "[]"] a by simp
  have "set u = set params \<inter> set ?reg"
    using take_params_taken [OF assms(2), of params "[]"] a by simp
  then have u: "u \<noteq> []"
    using assms(3) by auto
  show ?thesis
    using assms(1) a u r by (simp add: unsubscribe_def)
qed

lemma unsubscribe_nothing:
  assumes "distinct (dict_list channel (subscribed_channels s))"
    and "set params \<inter> set (dict_list channel (subscribed_channels s)) = {}"
    and "dict_in channel (subscribed_channels s)"
  shows "unsubscribe E channel params handler s
           = logger WARNING ''Not currently subscribed to channel with params'' s"
proof -
  let ?reg = "dict_list channel (subscribed_channels s)"
  obtain u r where a: "take_params params [] ?reg = (u, r)"
    by (cases "take_params params [] ?reg")
  have "set u = set params \<inter> set ?reg"
    using take_params_taken [OF assms(1), of params "[]"] a by simp
  then have "u = []"
    using assms(2) by simp
  then show ?thesis
    using assms(3) a by (simp add: unsubscribe_def)
qed

lemma add_params_distinct:
  "distinct registered \<Longrightarrow> distinct (fst (add_params ps registered new))"
  by (induction ps registered new rule: add_params.induct) auto

lemma subscribe_distinct:
  assumes "\<forall>c. distinct (dict_list c (subscribed_channels s))"
  shows "distinct (dict_list c (subscribed_channels (subscribe E channel params h s)))"
proof (cases "channel = [] \<or> params = []")
  case True
  then show ?thesis using assms by (auto simp: subscribe_def)
next
  case False
  let ?t = "add_handler channel h s"
  define s1 where "s1 = (if \<not> dict_in channel (subscribed_channels ?t) then
                  ?t\<lparr>subscribed_channels := dict_set channel [] (subscribed_channels ?t)\<rparr>
                else ?t)"
  obtain reg new where a: "add_params params (dict_list channel (subscribed_channels s1)) [] = (reg, new)"
    by (cases "add_params params (dict_list channel (subscribed_channels s1)) []")
  have d1: "distinct (dict_list k (subscribed_channels s1))" for k
    using assms by (simp add: s1_def dict_list_dict_set_if)
  have "distinct reg"
    using add_params_distinct [of "dict_list channel (subscribed_channels s1)" params "[]"] d1 a
    by simp
  moreover have "add_new_params channel params ?t
                   = (s1\<lparr>subscribed_channels := dict_set channel reg (subscribed_channels s1)\<rparr>, new)"
    using a by (simp add: add_new_params_def s1_def)
  ultimately show ?thesis
    using False d1 by (simp add: subscribe_def dict_list_dict_set_if)
qed

lemma unsubscribe_distinct:
  assumes "\<forall>c. distinct (dict_list c (subscribed_channels s))"
  shows "distinct (dict_list c (subscribed_channels (unsubscribe E channel params h s)))"
proof -
  let ?reg = "dict_list channel (subscribed_channels s)"
  obtain u r where a: "take_params params [] ?reg = (u, r)"
    by (cases "take_params params [] ?reg")
  have d: "distinct ?reg" using assms by simp
  have "r = filter (\<lambda>p. p \<notin> set params) ?reg"
    using take_params_remaining [OF d, of params "[]"] a by simp
  then have "distinct r" using d by simp
  then show ?thesis
    using assms a
    by (simp add: unsubscribe_def store_remaining_def dict_list_dict_set_if dict_list_dict_del_if)
qed

lemma client_call_step_distinct:
  assumes "\<forall>c. distinct (dict_list c (subscribed_channels s))"
  shows "\<forall>c. distinct (dict_list c (subscribed_channels (client_call_step E a s)))"
  using assms by (cases a) (simp_all add: subscribe_distinct unsubscribe_distinct)

lemma dispatch_distinct:
  assumes "\<forall>c. distinct (dict_list c (subscribed_channels s))"
  shows "\<forall>c. distinct (dict_list c (subscribed_channels (dispatch E ch d s)))"
proof -
  have "\<forall>c. distinct (dict_list c (subscribed_channels (call_handlers E k d i w a s)))"
    for k i w a
    by (rule call_handlers_invariant
          [where P = "\<lambda>t. \<forall>c. distinct (dict_list c (subscribed_channels t))"])
       (use assms client_call_step_distinct in simp_all)
  then show ?thesis
    using assms by (cases ch) (simp_all add: dispatch_def split: option.splits)
qed

lemma on_message_distinct:
  assumes "\<forall>c. distinct (dict_list c (subscribed_channels s))"
  shows "\<forall>c. distinct (dict_list c (subscribed_channels (on_message E m s)))"
  by (rule on_message_invariant
        [where P = "\<lambda>t. \<forall>c. distinct (dict_list c (subscribed_channels t))"])
     (use assms dispatch_distinct in simp_all)

lemma step_distinct:
  assumes "\<forall>c. distinct (dict_list c (subscribed_channels s))"
  shows "\<forall>c. distinct (dict_list c (subscribed_channels (step E e s)))"
proof (cases "changes_registry e")
  case True
  then show ?thesis
    using assms
    by (cases e) (simp_all add: subscribe_distinct unsubscribe_distinct on_message_distinct)
next
  case False
  then show ?thesis using assms by (simp add: step_registry)
qed

lemma run_distinct:
  assumes "\<forall>c. distinct (dict_list c (subscribed_channels s))"
  shows "\<forall>c. distinct (dict_list c (subscribed_channels (run E evs s)))"
  using assms
proof (induction evs arbitrary: s)
  case Nil
  then show ?case by simp
next
  case (Cons e evs)
  from Cons.IH [OF step_distinct [OF Cons.prems]] show ?case by simp
qed

lemma init_distinct: "\<forall>c. distinct (dict_list c (subscribed_channels (init key dbg)))"
  by (simp add: init_def dict_list_def)

text \<open>
  Claim C4 as it is stated fails where none of the given parameters is registered for the
  channel: \<^verbatim>\<open>unsubscribe\<close> then returns after its warning, before the block that removes
  handlers. The client below has the channel \<^verbatim>\<open>liquidation\<close> registered with handler 7;
  \<^verbatim>\<open>unsubscribe("liquidation", ["SOL"], handler 7)\<close> leaves handler 7 in the list.
\<close>

theorem unsubscribe_unregistered_params_keeps_handler:
  "dict_in ''liquidation'' (subscribed_channels subscribed_client)
   \<and> dict_list ''liquidation'' (handlers subscribed_client) = [7]
   \<and> handler_truth quiet 7
   \<and> dict_list ''liquidation''
         (handlers (unsubscribe quiet ''liquidation'' [''SOL''] (Some 7) subscribed_client))
       = [7]"
  by code_simp

text \<open>
  Claim C4, amended. Let the channel be registered, with a parameter list without
  duplicates (as it is in every run of the client from its constructor). When at least one
  of the given parameters is registered for the channel, \<^verbatim>\<open>unsubscribe\<close> leaves for the
  channel exactly the registered parameters that are not among the given ones, in their
  order, and deletes the entry of the channel when none is left; the other channels are
  untouched. When moreover a handler is given whose truth value is true and which is in the
  handler list of the channel, the handler registry afterwards is the one before with that
  handler removed from the list of the channel: the other handlers of the channel and the
  other channels are untouched. When none of the given parameters is registered for the
  channel, the call adds its warning to the log and changes nothing else.
\<close>

theorem unsubscribe_removes_intersection:
  assumes "dict_in channel (subscribed_channels s)"
    and "distinct (dict_list channel (subscribed_channels s))"
  shows "(set params \<inter> set (dict_list channel (subscribed_channels s)) \<noteq> {} \<longrightarrow>
            subscribed_channels (unsubscribe E channel params handler s)
              = (if set (dict_list channel (subscribed_channels s)) \<subseteq> set params
                 then dict_del channel (subscribed_channels s)
                 else dict_set channel
                        (filter (\<lambda>p. p \<notin> set params)
                           (dict_list channel (subscribed_channels s)))
                        (subscribed_channels s))
            \<and> dict_list channel (subscribed_channels (unsubscribe E channel params handler s))
              = filter (\<lambda>p. p \<notin> set params) (dict_list channel (subscribed_channels s))
            \<and> (handler = Some h \<and> handler_truth E h
                 \<and> h \<in> set (dict_list channel (handlers s)) \<longrightarrow>
                 handlers (unsubscribe E channel params handler s)
                   = dict_set channel (remove1 h (dict_list channel (handlers s))) (handlers s)
                 \<and> dict_list channel (handlers (unsubscribe E channel params handler s))
                   = remove1 h (dict_list channel (handlers s))))
       \<and> (set params \<inter> set (dict_list channel (subscribed_channels s)) = {} \<longrightarrow>
            unsubscribe E channel params handler s
              = logger WARNING ''Not currently subscribed to channel with params'' s)
       \<and> distinct (dict_list channel (subscribed_channels (run E evs (init key dbg))))"
proof -
  let ?reg = "dict_list channel (subscribed_channels s)"
  let ?rem = "filter (\<lambda>p. p \<notin> set params) ?reg"
  let ?s' = "unsubscribe E channel params handler s"
  have e: "(?rem = []) = (set ?reg \<subseteq> set params)"
    by (auto simp: filter_empty_conv)
  have c: "handlers (remove_handlers E channel (Some h) ?rem t)
             = dict_set channel (remove1 h (dict_list channel (handlers t))) (handlers t)"
    if "h \<in> set (dict_list channel (handlers t))" and "handler_truth E h" for t
    using that by (auto simp: remove_handlers_def handler_given_def intro: dict_in_nonempty)
  have s1: "subscribed_channels ?s'
           = (if set ?reg \<subseteq> set params then dict_del channel (subscribed_channels s)
              else dict_set channel ?rem (subscribed_channels s))"
    if "set params \<inter> set ?reg \<noteq> {}"
    using e by (simp add: unsubscribe_unfold [OF assms that] store_remaining_def)
  have s2: "dict_list channel (subscribed_channels ?s') = ?rem"
    if "set params \<inter> set ?reg \<noteq> {}"
    using e by (auto simp: s1 [OF that])
  have s3: "handlers ?s'
              = dict_set channel (remove1 h (dict_list channel (handlers s))) (handlers s)"
    if "set params \<inter> set ?reg \<noteq> {}"
      and "handler = Some h \<and> handler_truth E h \<and> h \<in> set (dict_list channel (handlers s))"
    using that(2) by (simp add: unsubscribe_unfold [OF assms that(1)] c)
  have s4: "dict_list channel (handlers ?s') = remove1 h (dict_list channel (handlers s))"
    if "set params \<inter> set ?reg \<noteq> {}"
      and "handler = Some h \<and> handler_truth E h \<and> h \<in> set (dict_list channel (handlers s))"
    using s3 [OF that] by simp
  have s5: "?s' = logger WARNING ''Not currently subscribed to channel with params'' s"
    if "set params \<inter> set ?reg = {}"
    using assms that by (intro unsubscribe_nothing)
  have s6: "distinct (dict_list channel (subscribed_channels (run E evs (init key dbg))))"
    using run_distinct [OF init_distinct, of E evs key dbg] by simp
  show ?thesis
    using s1 s2 s3 s4 s5 s6 by blast
qed

theorem unsubscribe_removes_intersection_witness:
  "dict_in ''liquidation'' (subscribed_channels subscribed_client)
   \<and> distinct (dict_list ''liquidation'' (subscribed_channels subscribed_client))
   \<and> set [''ETH'', ''SOL'']
        \<inter> set (dict_list ''liquidation'' (subscribed_channels subscribed_client)) \<noteq> {}
   \<and> handler_truth quiet 7
   \<and> 7 \<in> set (dict_list ''liquidation'' (handlers subscribed_client))
   \<and> subscribed_channels
         (unsubscribe quiet ''liquidation'' [''ETH'', ''SOL''] (Some 7) subscribed_client)
       = [(''liquidation'', [''BTC''])]
   \<and> handlers
         (unsubscribe quiet ''liquidation'' [''ETH'', ''SOL''] (Some 7) subscribed_client)
       = [(''liquidation'', [])]
   \<and> set [''SOL'']
        \<inter> set (dict_list ''liquidation'' (subscribed_channels subscribed_client)) = {}
   \<and> unsubscribe quiet ''liquidation'' [''SOL''] (Some 7) subscribed_client
       = logger WARNING ''Not currently subscribed to channel with params'' subscribed_client"
proof -
  have v: "subscribed_channels subscribed_client = [(''liquidation'', [''BTC'', ''ETH''])]"
      "handlers subscribed_client = [(''liquidation'', [7])]"
    by code_simp+
  have h: "dict_in ''liquidation'' (subscribed_channels subscribed_client)"
      "distinct (dict_list ''liquidation'' (subscribed_channels subscribed_client))"
    by (simp_all add: v dict_in_def dict_list_def)
  have i: "set [''ETH'', ''SOL'']
         \<inter> set (dict_list ''liquidation'' (subscribed_channels subscribed_client)) \<noteq> {}"
    by (simp add: v dict_list_def)
  have n: "handler_truth quiet 7" "7 \<in> set (dict_list ''liquidation'' (handlers subscribed_client))"
    by (simp_all add: v dict_list_def quiet_def)
  have z: "set [''SOL'']
         \<inter> set (dict_list ''liquidation'' (subscribed_channels subscribed_client)) = {}"
    by (simp add: v dict_list_def)
  from unsubscribe_removes_intersection
         [OF h, of "[''ETH'', ''SOL'']" quiet "Some 7" 7 "[]" "''key''" False] i n
  have "subscribed_channels
          (unsubscribe quiet ''liquidation'' [''ETH'', ''SOL''] (Some 7) subscribed_client)
          = (if set (dict_list ''liquidation'' (subscribed_channels subscribed_client))
                  \<subseteq> set [''ETH'', ''SOL'']
             then dict_del ''liquidation'' (subscribed_channels subscribed_client)
             else dict_set ''liquidation''
                    (filter (\<lambda>p. p \<notin> set [''ETH'', ''SOL''])
                       (dict_list ''liquidation'' (subscribed_channels subscribed_client)))
                    (subscribed_channels subscribed_client))"
    and "handlers
          (unsubscribe quiet ''liquidation'' [''ETH'', ''SOL''] (Some 7) subscribed_client)
          = dict_set ''liquidation''
              (remove1 7 (dict_list ''liquidation'' (handlers subscribed_client)))
              (handlers subscribed_client)"
    by blast+
  moreover
  from unsubscribe_removes_intersection
         [OF h, of "[''SOL'']" quiet "Some 7" 7 "[]" "''key''" False] z
  have "unsubscribe quiet ''liquidation'' [''SOL''] (Some 7) subscribed_client
          = logger WARNING ''Not currently subscribed to channel with params'' subscribed_client"
    by blast
  ultimately show ?thesis
    using h i n z by (simp add: v dict_list_def)
qed

end
